theory Spec2Isabelle
  imports Main
begin

section \<open>The e-mail verifier: model of \<open>v.py\<close>\<close>

text \<open>
  The program checks an address in four stages (syntax, A record, MX record, SMTP probe),
  infers a country from the domain's last label, and maps the pipeline over a list of
  addresses with a thread pool. An address is a \<open>string\<close>; where the program looks at
  a \<open>str\<close> through the Unicode database (the country of a domain), the string is the list
  of its code points. The functions below keep the names of the source. Characters are compared through their codes
  (\<open>of_char\<close>), as the ranges of a Python character class are; the classes of the
  pattern hold ASCII characters only, so a character beyond ASCII is in none of them.
\<close>

subsection \<open>Regular expressions, as \<open>re\<close> matches them\<close>

text \<open>
  A character class is the list of its items, in the order the pattern writes them:
  \<open>[a-zA-Z0-9-.]\<close> is three ranges and the two literals \<open>-\<close> and \<open>.\<close>
  (a hyphen that follows a complete range stands for itself).
\<close>

datatype citem = Lit char | Range char char

fun in_item :: "citem \<Rightarrow> char \<Rightarrow> bool" where
  "in_item (Lit a) c = (c = a)"
| "in_item (Range a b) c = ((of_char a :: nat) \<le> of_char c \<and> (of_char c :: nat) \<le> of_char b)"

definition in_class :: "citem list \<Rightarrow> char \<Rightarrow> bool" where
  "in_class items c = list_ex (\<lambda>i. in_item i c) items"

datatype regex = Zero | One | Class "citem list" | Alt regex regex | Times regex regex | Star regex

text \<open>\<open>r+\<close> is \<open>r\<close> followed by \<open>r*\<close>.\<close>

definition Plus1 :: "regex \<Rightarrow> regex" where
  "Plus1 r = Times r (Star r)"

text \<open>Matching a whole string, by derivatives: \<open>deriv c r\<close> matches what \<open>r\<close> matches after \<open>c\<close>.\<close>

fun nullable :: "regex \<Rightarrow> bool" where
  "nullable Zero = False"
| "nullable One = True"
| "nullable (Class cs) = False"
| "nullable (Alt r s) = (nullable r \<or> nullable s)"
| "nullable (Times r s) = (nullable r \<and> nullable s)"
| "nullable (Star r) = True"

fun deriv :: "char \<Rightarrow> regex \<Rightarrow> regex" where
  "deriv c Zero = Zero"
| "deriv c One = Zero"
| "deriv c (Class cs) = (if in_class cs c then One else Zero)"
| "deriv c (Alt r s) = Alt (deriv c r) (deriv c s)"
| "deriv c (Times r s) =
     (if nullable r then Alt (Times (deriv c r) s) (deriv c s) else Times (deriv c r) s)"
| "deriv c (Star r) = Times (deriv c r) (Star r)"

fun fullmatch :: "regex \<Rightarrow> string \<Rightarrow> bool" where
  "fullmatch r [] = nullable r"
| "fullmatch r (c # cs) = fullmatch (deriv c r) cs"

text \<open>
  \<open>re.match(r"^R$", s)\<close> succeeds when a prefix of \<open>s\<close> matches \<open>R\<close> and \<open>$\<close> holds where
  that prefix ends. Without the MULTILINE flag \<open>$\<close> holds at the end of the string and
  just before a newline that is the last character. So the match succeeds on \<open>s\<close> when
  \<open>R\<close> matches all of \<open>s\<close>, or \<open>s\<close> ends in a newline and \<open>R\<close> matches all that is before it.
\<close>

definition match_to_dollar :: "regex \<Rightarrow> string \<Rightarrow> bool" where
  "match_to_dollar r s =
     (fullmatch r s \<or> (s \<noteq> [] \<and> last s = CHR 0x0A \<and> fullmatch r (butlast s)))"

text \<open>The pattern of \<open>is_valid_email\<close>: \<open>^[a-zA-Z0-9_.+-]+@[a-zA-Z0-9-]+\.[a-zA-Z0-9-.]+$\<close>.\<close>

definition email_regex :: regex where
  "email_regex =
     Times (Plus1 (Class [Range CHR ''a'' CHR ''z'', Range CHR ''A'' CHR ''Z'',
                          Range CHR ''0'' CHR ''9'', Lit CHR ''_'', Lit CHR ''.'',
                          Lit CHR ''+'', Lit CHR ''-'']))
    (Times (Class [Lit CHR ''@''])
    (Times (Plus1 (Class [Range CHR ''a'' CHR ''z'', Range CHR ''A'' CHR ''Z'',
                          Range CHR ''0'' CHR ''9'', Lit CHR ''-'']))
    (Times (Class [Lit CHR ''.''])
           (Plus1 (Class [Range CHR ''a'' CHR ''z'', Range CHR ''A'' CHR ''Z'',
                          Range CHR ''0'' CHR ''9'', Lit CHR ''-'', Lit CHR ''.''])))))"

definition is_valid_email :: "string \<Rightarrow> bool" where
  "is_valid_email email = match_to_dollar email_regex email"

text \<open>The language of a regular expression, to reason about the matcher.\<close>

inductive_set star :: "string set \<Rightarrow> string set" for A :: "string set" where
  star_empty: "[] \<in> star A"
| star_more: "u \<in> A \<Longrightarrow> v \<in> star A \<Longrightarrow> u @ v \<in> star A"

fun lang :: "regex \<Rightarrow> string set" where
  "lang Zero = {}"
| "lang One = {[]}"
| "lang (Class cs) = {[c] | c. in_class cs c}"
| "lang (Alt r s) = lang r \<union> lang s"
| "lang (Times r s) = {u @ v | u v. u \<in> lang r \<and> v \<in> lang s}"
| "lang (Star r) = star (lang r)"

subsection \<open>The address format in words\<close>

text \<open>
  The sets of characters the format speaks of, and the shape
  \<open>local @ label . trailing\<close> with each part nonempty. \<open>address_shape\<close> takes the set
  allowed in the trailing part as a parameter: the program allows \<open>trailing_char\<close>
  (letters, digits, hyphen, dot), the written format \<open>spec_trailing_char\<close> (letters,
  digits, dot).
\<close>

definition ascii_letter :: "char \<Rightarrow> bool" where
  "ascii_letter c =
     (((97::nat) \<le> of_char c \<and> (of_char c :: nat) \<le> 122) \<or>
      ((65::nat) \<le> of_char c \<and> (of_char c :: nat) \<le> 90))"

definition ascii_digit :: "char \<Rightarrow> bool" where
  "ascii_digit c = ((48::nat) \<le> of_char c \<and> (of_char c :: nat) \<le> 57)"

definition local_char :: "char \<Rightarrow> bool" where
  "local_char c = (ascii_letter c \<or> ascii_digit c \<or> c \<in> set ''_.+-'')"

definition label_char :: "char \<Rightarrow> bool" where
  "label_char c = (ascii_letter c \<or> ascii_digit c \<or> c = CHR ''-'')"

definition trailing_char :: "char \<Rightarrow> bool" where
  "trailing_char c = (ascii_letter c \<or> ascii_digit c \<or> c = CHR ''-'' \<or> c = CHR ''.'')"

definition spec_trailing_char :: "char \<Rightarrow> bool" where
  "spec_trailing_char c = (ascii_letter c \<or> ascii_digit c \<or> c = CHR ''.'')"

definition address_shape :: "(char \<Rightarrow> bool) \<Rightarrow> string \<Rightarrow> bool" where
  "address_shape trailing s =
     (\<exists>l d r. s = l @ ''@'' @ d @ ''.'' @ r \<and>
        l \<noteq> [] \<and> list_all local_char l \<and>
        d \<noteq> [] \<and> list_all label_char d \<and>
        r \<noteq> [] \<and> list_all trailing r)"

subsection \<open>Splitting strings\<close>

text \<open>
  \<open>s.split(sep)\<close> for a separator of one character: the pieces between the
  separators, in order; never the empty list (\<open>"".split(".")\<close> is \<open>[""]\<close>).
\<close>

fun split_py :: "'a \<Rightarrow> 'a list \<Rightarrow> 'a list list" where
  "split_py sep [] = [[]]"
| "split_py sep (c # cs) =
     (if c = sep then [] # split_py sep cs
      else (c # hd (split_py sep cs)) # tl (split_py sep cs))"

subsection \<open>Calls that return, raise or never come back\<close>

text \<open>
  The exceptions the program meets: those of the resolver (\<open>NXDOMAIN\<close>, \<open>NoAnswer\<close>,
  \<open>LifetimeTimeout\<close>, \<open>NoNameservers\<close> for SERVFAIL, \<open>EmptyLabel\<close> for a name with an empty
  label), Python's \<open>IndexError\<close>, those of the SMTP client, and any other by its name.
  A call returns a value, raises, or blocks for ever: the program sets no timeout on its
  SMTP session, so a server that says nothing keeps the caller waiting.
\<close>

datatype exn =
    NXDOMAIN | NoAnswer | LifetimeTimeout | NoNameservers | EmptyLabel
  | IndexError
  | SMTPConnectError | SMTPServerDisconnected | ConnectionRefusedError
  | OtherException string

datatype 'a result = Return 'a | Raise exn | Blocks

datatype rdtype = A | MX

text \<open>What the program asks of the network, in the order it asks.\<close>

datatype request =
    Resolve string rdtype
  | Connect string
  | Helo
  | Mail string
  | Rcpt string
  | Quit

type_synonym trace = "request list"

text \<open>
  The network is a parameter: it answers each request, and its answer may depend on the
  requests made before (the trace). A DNS answer is the list of its records, each
  written as text (for MX, the exchange host); an SMTP reply is its code.
\<close>

record world =
  resolver :: "trace \<Rightarrow> string \<Rightarrow> rdtype \<Rightarrow> string list result"
  mail_connect :: "trace \<Rightarrow> string \<Rightarrow> unit result"
  mail_server :: "trace \<Rightarrow> request \<Rightarrow> int result"

text \<open>A computation takes the trace so far and gives its outcome and the trace after it.\<close>

type_synonym 'a io = "trace \<Rightarrow> 'a result \<times> trace"

definition ret :: "'a \<Rightarrow> 'a io" where
  "ret x t = (Return x, t)"

definition raise :: "exn \<Rightarrow> 'a io" where
  "raise e t = (Raise e, t)"

definition bind :: "'a io \<Rightarrow> ('a \<Rightarrow> 'b io) \<Rightarrow> 'b io" where
  "bind m f t =
     (case m t of
        (Return x, t') \<Rightarrow> f x t'
      | (Raise e, t') \<Rightarrow> (Raise e, t')
      | (Blocks, t') \<Rightarrow> (Blocks, t'))"

text \<open>\<open>try: m except ...: h\<close>; the handler \<open>h\<close> re-raises what its clause does not name.\<close>

definition try_except :: "'a io \<Rightarrow> (exn \<Rightarrow> 'a io) \<Rightarrow> 'a io" where
  "try_except m h t =
     (case m t of
        (Return x, t') \<Rightarrow> (Return x, t')
      | (Raise e, t') \<Rightarrow> h e t'
      | (Blocks, t') \<Rightarrow> (Blocks, t'))"

definition resolve :: "world \<Rightarrow> string \<Rightarrow> rdtype \<Rightarrow> string list io" where
  "resolve w name ty t = (resolver w t name ty, t @ [Resolve name ty])"

definition smtp_open :: "world \<Rightarrow> string \<Rightarrow> unit io" where
  "smtp_open w host t = (mail_connect w t host, t @ [Connect host])"

definition smtp_cmd :: "world \<Rightarrow> request \<Rightarrow> int io" where
  "smtp_cmd w r t = (mail_server w t r, t @ [r])"

text \<open>\<open>xs[0]\<close>.\<close>

definition first_item :: "'a list \<Rightarrow> 'a io" where
  "first_item xs = (case xs of [] \<Rightarrow> raise IndexError | x # _ \<Rightarrow> ret x)"

subsection \<open>The stages\<close>

text \<open>\<open>email.split('@')[1]\<close>: the second piece, \<open>IndexError\<close> when there is none.\<close>

definition get_domain :: "string \<Rightarrow> string io" where
  "get_domain email =
     (case split_py CHR ''@'' email of
        _ # domain # _ \<Rightarrow> ret domain
      | _ \<Rightarrow> raise IndexError)"

definition domain_exists :: "world \<Rightarrow> string \<Rightarrow> bool io" where
  "domain_exists w domain =
     try_except (bind (resolve w domain A) (\<lambda>_. ret True))
       (\<lambda>e. if e = NXDOMAIN then ret False else raise e)"

definition has_mx_records :: "world \<Rightarrow> string \<Rightarrow> bool io" where
  "has_mx_records w domain =
     try_except (bind (resolve w domain MX) (\<lambda>mx_records. ret (length mx_records > 0)))
       (\<lambda>e. if e = NoAnswer \<or> e = NXDOMAIN then ret False else raise e)"

text \<open>
  The body of the \<open>try\<close> of \<open>smtp_verify\<close>, then the function: \<open>get_domain\<close> runs before
  the \<open>try\<close>, and the bare \<open>except\<close> turns every exception of the body into \<open>False\<close>.
\<close>

definition smtp_session :: "world \<Rightarrow> string \<Rightarrow> string \<Rightarrow> bool io" where
  "smtp_session w email domain =
     bind (resolve w domain MX) (\<lambda>mx_records.
     bind (first_item mx_records) (\<lambda>mx_record.
     bind (smtp_open w mx_record) (\<lambda>server.
     bind (smtp_cmd w Helo) (\<lambda>_.
     bind (smtp_cmd w (Mail ''test@example.com'')) (\<lambda>_.
     bind (smtp_cmd w (Rcpt email)) (\<lambda>code.
     bind (smtp_cmd w Quit) (\<lambda>_.
     ret (code = 250))))))))"

definition smtp_verify :: "world \<Rightarrow> string \<Rightarrow> bool io" where
  "smtp_verify w email =
     bind (get_domain email) (\<lambda>domain.
       try_except (smtp_session w email domain) (\<lambda>e. ret False))"

subsection \<open>The country of a domain\<close>

text \<open>
  A Python \<open>str\<close> is a sequence of Unicode code points, and \<open>len\<close>, \<open>str.isalpha\<close> and
  \<open>str.upper\<close> see code points: \<open>get_country_by_domain\<close> is modelled over lists of code
  points, and \<open>codes\<close> gives the code points of a string of the model.

  Two things the function uses are not part of the source and are the fields of the
  parameter \<open>lib\<close>: what the Unicode database says of the characters beyond ASCII
  (whether one is alphabetic, and its uppercase, which may be several characters),
  and the country table of \<open>pycountry\<close> (the name for an alpha-2 key, or \<open>None\<close>; the
  program answers "Unknown" both when the lookup returns nothing and when it raises
  \<open>KeyError\<close>). On ASCII the letters are \<open>a-z\<close> and \<open>A-Z\<close>, and the uppercase of \<open>a-z\<close> is
  \<open>A-Z\<close>. \<open>str.upper\<close> maps each character on its own.
\<close>

type_synonym ustring = "nat list"

definition codes :: "string \<Rightarrow> ustring" where
  "codes s = map of_char s"

record library =
  unicode_isalpha :: "nat \<Rightarrow> bool"
  unicode_upper :: "nat \<Rightarrow> ustring"
  countries_get :: "ustring \<Rightarrow> string option"

definition isalpha_cp :: "library \<Rightarrow> nat \<Rightarrow> bool" where
  "isalpha_cp lib c =
     (if c < 128 then (97 \<le> c \<and> c \<le> 122) \<or> (65 \<le> c \<and> c \<le> 90)
      else unicode_isalpha lib c)"

definition upper_cp :: "library \<Rightarrow> nat \<Rightarrow> ustring" where
  "upper_cp lib c =
     (if c < 128 then (if 97 \<le> c \<and> c \<le> 122 then [c - 32] else [c])
      else unicode_upper lib c)"

definition isalpha :: "library \<Rightarrow> ustring \<Rightarrow> bool" where
  "isalpha lib s = (s \<noteq> [] \<and> list_all (isalpha_cp lib) s)"

definition upper :: "library \<Rightarrow> ustring \<Rightarrow> ustring" where
  "upper lib s = concat (map (upper_cp lib) s)"

definition get_country_by_domain :: "library \<Rightarrow> ustring \<Rightarrow> string" where
  "get_country_by_domain lib domain =
     (let parts = split_py (46::nat) domain in
      if length parts > 1 \<and> isalpha lib (last parts) \<and> length (last parts) = 2
      then (case countries_get lib (upper lib (last parts)) of
              Some name \<Rightarrow> name
            | None \<Rightarrow> ''Unknown'')
      else ''Unknown'')"

subsection \<open>The pipeline and the bulk runner\<close>

text \<open>
  A result is the tuple \<open>(email, is_valid, status, country)\<close>. The domain handed to
  \<open>get_country_by_domain\<close> is a string of the model, given by its code points.
\<close>

type_synonym verification = "string \<times> bool \<times> string \<times> string"

definition verify_email :: "library \<Rightarrow> world \<Rightarrow> string \<Rightarrow> verification io" where
  "verify_email lib w email =
     (if \<not> is_valid_email email
      then ret (email, False, ''Invalid Email Syntax'', ''Unknown'')
      else
        bind (get_domain email) (\<lambda>domain.
        bind (domain_exists w domain) (\<lambda>exists.
          if \<not> exists then ret (email, False, ''Domain Does Not Exist'', ''Unknown'')
          else
            bind (has_mx_records w domain) (\<lambda>has_mx.
              if \<not> has_mx then ret (email, False, ''No MX Records'', ''Unknown'')
              else
                bind (smtp_verify w email) (\<lambda>verified.
                  if \<not> verified
                  then ret (email, False, ''Email Not Verified'',
                            get_country_by_domain lib (codes domain))
                  else ret (email, True, ''Verified'',
                            get_country_by_domain lib (codes domain)))))))"

text \<open>
  \<open>list(executor.map(verify_email, emails))\<close> inside \<open>with ThreadPoolExecutor()\<close>: every
  address is submitted, the results are read in the order of the input, and leaving the
  \<open>with\<close> block joins the worker threads. Reading waits for an invocation that blocks.
  The first invocation that raised, in input order, ends the reading: the futures not
  yet started are cancelled, and the exception leaves the function once the running
  invocations are done, so it never does when one of them blocks. Which later
  invocations were running by then is the scheduler's choice, the parameter \<open>started\<close>.
\<close>

definition is_blocks :: "'a result \<Rightarrow> bool" where
  "is_blocks r = (case r of Blocks \<Rightarrow> True | _ \<Rightarrow> False)"

fun gather :: "(nat \<Rightarrow> bool) \<Rightarrow> nat \<Rightarrow> 'a result list \<Rightarrow> 'a list result" where
  "gather started i [] = Return []"
| "gather started i (r # rs) =
     (case r of
        Return x \<Rightarrow>
          (case gather started (Suc i) rs of
             Return xs \<Rightarrow> Return (x # xs)
           | Raise e \<Rightarrow> Raise e
           | Blocks \<Rightarrow> Blocks)
      | Raise e \<Rightarrow>
          (if list_ex (\<lambda>(j, q). started j \<and> is_blocks q)
                (zip [Suc i ..< Suc i + length rs] rs)
           then Blocks else Raise e)
      | Blocks \<Rightarrow> Blocks)"

text \<open>
  Each invocation talks to the network on its own: \<open>worlds i\<close> is what the invocation
  for the \<open>i\<close>-th address meets, from an empty trace.
\<close>

definition pipeline_outcome ::
  "library \<Rightarrow> (nat \<Rightarrow> world) \<Rightarrow> string list \<Rightarrow> nat \<Rightarrow> verification result" where
  "pipeline_outcome lib worlds emails i =
     fst (verify_email lib (worlds i) (emails ! i) [])"

definition verify_bulk_emails ::
  "(nat \<Rightarrow> bool) \<Rightarrow> library \<Rightarrow> (nat \<Rightarrow> world) \<Rightarrow> string list
     \<Rightarrow> verification list result" where
  "verify_bulk_emails started lib worlds emails =
     gather started 0
       (map (pipeline_outcome lib worlds emails) [0 ..< length emails])"

subsection \<open>Sample networks and tables\<close>

text \<open>
  A network whose answers do not depend on the trace: one answer for A queries, one for
  MX queries, one for connecting, and a reply for each SMTP command.
\<close>

definition fixed_world ::
  "string list result \<Rightarrow> string list result \<Rightarrow> unit result \<Rightarrow> (request \<Rightarrow> int result) \<Rightarrow> world" where
  "fixed_world a mx conn srv =
     \<lparr> resolver = (\<lambda>t name ty. case ty of A \<Rightarrow> a | MX \<Rightarrow> mx),
       mail_connect = (\<lambda>t host. conn),
       mail_server = (\<lambda>t r. srv r) \<rparr>"

text \<open>A mail server that accepts every command, and one that refuses the recipient.\<close>

definition accepting :: "request \<Rightarrow> int result" where
  "accepting r = (case r of Quit \<Rightarrow> Return 221 | _ \<Rightarrow> Return 250)"

definition rejecting :: "request \<Rightarrow> int result" where
  "rejecting r = (case r of Rcpt _ \<Rightarrow> Return 550 | Quit \<Rightarrow> Return 221 | _ \<Rightarrow> Return 250)"

text \<open>A mail server that drops the connection at the greeting.\<close>

definition dropping_at_helo :: "request \<Rightarrow> int result" where
  "dropping_at_helo r = (case r of Helo \<Rightarrow> Raise SMTPServerDisconnected | _ \<Rightarrow> Return 250)"

text \<open>A domain that resolves and has the mail exchanger \<open>mx.example.de.\<close>\<close>

definition healthy_world :: "(request \<Rightarrow> int result) \<Rightarrow> world" where
  "healthy_world srv = fixed_world (Return [''192.0.2.1'']) (Return [''mx.example.de.'']) (Return ()) srv"

text \<open>A domain with MX records and no A record: the A query raises \<open>NoAnswer\<close>.\<close>

definition mail_only_world :: world where
  "mail_only_world =
     fixed_world (Raise NoAnswer) (Return [''mx.example.com.'']) (Return ()) accepting"

text \<open>A mail exchanger that does not answer the connection.\<close>

definition silent_mx_world :: world where
  "silent_mx_world =
     fixed_world (Return [''192.0.2.1'']) (Return [''mx.example.de.'']) Blocks accepting"

text \<open>A mail exchanger that refuses the connection.\<close>

definition refusing_mx_world :: world where
  "refusing_mx_world =
     fixed_world (Return [''192.0.2.1'']) (Return [''mx.example.de.''])
       (Raise ConnectionRefusedError) accepting"

text \<open>A domain that does not exist, and one that exists and has no MX record.\<close>

definition nxdomain_world :: world where
  "nxdomain_world = fixed_world (Raise NXDOMAIN) (Raise NXDOMAIN) (Return ()) accepting"

definition no_mx_world :: world where
  "no_mx_world = fixed_world (Return [''192.0.2.1'']) (Raise NoAnswer) (Return ()) accepting"

text \<open>
  Modelled from the spec: the country table of \<open>pycountry\<close> and the Unicode database are
  not part of the source. Three entries of the table, and two characters beyond ASCII:
  the dotless i (U+0131), alphabetic, whose uppercase is \<open>I\<close>, and the sharp s (U+00DF),
  alphabetic, whose uppercase is \<open>SS\<close>.
\<close>

definition sample_library :: library where
  "sample_library =
     \<lparr> unicode_isalpha = (\<lambda>c. c = 305 \<or> c = 223),
       unicode_upper = (\<lambda>c. if c = 305 then [73] else if c = 223 then [83, 83] else [c]),
       countries_get = map_of [(codes ''DE'', ''Germany''), (codes ''FR'', ''France''),
                               (codes ''IT'', ''Italy'')] \<rparr>"

subsection \<open>Notions the properties are stated with\<close>

text \<open>
  The domain of an address is what follows its first \<open>@\<close>; the top-level label of a
  domain is its final dot-separated segment.
\<close>

definition domain_part :: "string \<Rightarrow> string" where
  "domain_part email = tl (dropWhile (\<lambda>c. c \<noteq> CHR ''@'') email)"

definition last_label :: "ustring \<Rightarrow> ustring" where
  "last_label domain = rev (takeWhile (\<lambda>c. c \<noteq> 46) (rev domain))"

text \<open>
  A network is responsive when every request gets a reply or an error; a computation
  completes when it never blocks.
\<close>

definition responsive :: "world \<Rightarrow> bool" where
  "responsive w =
     ((\<forall>t name ty. resolver w t name ty \<noteq> Blocks) \<and>
      (\<forall>t host. mail_connect w t host \<noteq> Blocks) \<and>
      (\<forall>t r. mail_server w t r \<noteq> Blocks))"

definition completes :: "'a io \<Rightarrow> bool" where
  "completes m = (\<forall>t. fst (m t) \<noteq> Blocks)"

text \<open>
  The socket of the SMTP session. It is open once the connection is made; \<open>quit()\<close>
  closes it after the server's reply. What the SMTP client does with its socket when a
  call raises is not part of the source: \<open>released e\<close> says that the client raises \<open>e\<close>
  with no socket left open (it closed the socket first, or never had one).
  \<open>socket_after\<close> follows a list of requests, each answered at the trace it was made
  at, and says whether the socket is open at the end; \<open>requests_made\<close> are the requests
  a computation adds to the trace.
\<close>

definition socket_step :: "world \<Rightarrow> (exn \<Rightarrow> bool) \<Rightarrow> trace \<Rightarrow> request \<Rightarrow> bool \<Rightarrow> bool" where
  "socket_step w released t r is_open =
     (case r of
        Resolve _ _ \<Rightarrow> is_open
      | Connect host \<Rightarrow>
          (case mail_connect w t host of
             Return _ \<Rightarrow> True
           | Raise e \<Rightarrow> \<not> released e
           | Blocks \<Rightarrow> True)
      | Quit \<Rightarrow>
          (case mail_server w t Quit of
             Return _ \<Rightarrow> False
           | Raise e \<Rightarrow> is_open \<and> \<not> released e
           | Blocks \<Rightarrow> is_open)
      | _ \<Rightarrow>
          (case mail_server w t r of
             Return _ \<Rightarrow> is_open
           | Raise e \<Rightarrow> is_open \<and> \<not> released e
           | Blocks \<Rightarrow> is_open))"

fun socket_after :: "world \<Rightarrow> (exn \<Rightarrow> bool) \<Rightarrow> trace \<Rightarrow> request list \<Rightarrow> bool \<Rightarrow> bool" where
  "socket_after w released t [] is_open = is_open"
| "socket_after w released t (r # rs) is_open =
     socket_after w released (t @ [r]) rs (socket_step w released t r is_open)"

definition requests_made :: "'a io \<Rightarrow> trace \<Rightarrow> request list" where
  "requests_made m t = drop (length t) (snd (m t))"


text \<open>A computation grows the trace: it only appends the requests it makes.\<close>

definition grows :: "'a io \<Rightarrow> bool" where
  "grows m = (\<forall>t. \<exists>ext. snd (m t) = t @ ext)"


section \<open>Properties\<close>

subsection \<open>The matcher decides the language\<close>

lemma nullable_lang: "nullable r \<longleftrightarrow> [] \<in> lang r"
  by (induction r) (auto intro: star_empty)

lemma star_cons_split:
  assumes "x \<in> star L" and "x = c # w"
  shows "\<exists>u v. w = u @ v \<and> c # u \<in> L \<and> v \<in> star L"
  using assms
proof (induction arbitrary: w rule: star.induct)
  case star_empty
  then show ?case by simp
next
  case (star_more u v)
  show ?case
  proof (cases u)
    case Nil
    with star_more show ?thesis by simp
  next
    case (Cons a u')
    with star_more.prems have "a = c" and "w = u' @ v" by simp_all
    with Cons star_more.hyps show ?thesis by blast
  qed
qed

lemma star_cons_iff:
  "c # w \<in> star L \<longleftrightarrow> (\<exists>u v. w = u @ v \<and> c # u \<in> L \<and> v \<in> star L)"
proof
  assume "c # w \<in> star L"
  then show "\<exists>u v. w = u @ v \<and> c # u \<in> L \<and> v \<in> star L"
    by (rule star_cons_split) simp
next
  assume "\<exists>u v. w = u @ v \<and> c # u \<in> L \<and> v \<in> star L"
  then obtain u v where "w = u @ v" "c # u \<in> L" "v \<in> star L" by blast
  then show "c # w \<in> star L"
    using star_more [of "c # u" L v] by simp
qed

lemma deriv_lang: "w \<in> lang (deriv c r) \<longleftrightarrow> c # w \<in> lang r"
proof (induction r arbitrary: w)
  case (Times r s)
  have split: "(\<exists>u v. c # w = u @ v \<and> u \<in> lang r \<and> v \<in> lang s) \<longleftrightarrow>
      ([] \<in> lang r \<and> c # w \<in> lang s) \<or> (\<exists>u v. w = u @ v \<and> c # u \<in> lang r \<and> v \<in> lang s)"
    by (auto simp: Cons_eq_append_conv)
  show ?case
    using Times split by (auto simp: nullable_lang)
next
  case (Star r)
  then show ?case by (auto simp: star_cons_iff)
qed auto

lemma fullmatch_lang: "fullmatch r w \<longleftrightarrow> w \<in> lang r"
  by (induction w arbitrary: r) (simp_all add: nullable_lang deriv_lang)

lemma star_class: "w \<in> star {[c] | c. P c} \<longleftrightarrow> list_all P w"
proof
  assume "w \<in> star {[c] | c. P c}"
  then show "list_all P w"
    by (induction rule: star.induct) auto
next
  assume "list_all P w"
  then show "w \<in> star {[c] | c. P c}"
  proof (induction w)
    case Nil
    show ?case by (rule star_empty)
  next
    case (Cons a w)
    then have "[a] \<in> {[c] | c. P c}" and "w \<in> star {[c] | c. P c}" by auto
    then have "[a] @ w \<in> star {[c] | c. P c}" by (rule star_more)
    then show ?case by simp
  qed
qed

lemma lang_Plus1_Class:
  "w \<in> lang (Plus1 (Class cs)) \<longleftrightarrow> w \<noteq> [] \<and> list_all (in_class cs) w"
proof -
  have "w \<in> lang (Plus1 (Class cs)) \<longleftrightarrow>
      (\<exists>c v. w = c # v \<and> in_class cs c \<and> v \<in> star {[c] | c. in_class cs c})"
  proof
    assume "w \<in> lang (Plus1 (Class cs))"
    then show "\<exists>c v. w = c # v \<and> in_class cs c \<and> v \<in> star {[c] | c. in_class cs c}"
      by (auto simp: Plus1_def)
  next
    assume "\<exists>c v. w = c # v \<and> in_class cs c \<and> v \<in> star {[c] | c. in_class cs c}"
    then obtain c v where "w = [c] @ v" "in_class cs c" "v \<in> star {[c] | c. in_class cs c}"
      by auto
    then show "w \<in> lang (Plus1 (Class cs))"
      unfolding Plus1_def lang.simps by blast
  qed
  also have "\<dots> \<longleftrightarrow> (\<exists>c v. w = c # v \<and> in_class cs c \<and> list_all (in_class cs) v)"
    by (simp only: star_class)
  also have "\<dots> \<longleftrightarrow> w \<noteq> [] \<and> list_all (in_class cs) w"
    by (cases w) auto
  finally show ?thesis .
qed

lemma lang_Lit: "w \<in> lang (Class [Lit a]) \<longleftrightarrow> w = [a]"
  by (auto simp: in_class_def)

lemma local_class:
  "in_class [Range CHR ''a'' CHR ''z'', Range CHR ''A'' CHR ''Z'', Range CHR ''0'' CHR ''9'',
             Lit CHR ''_'', Lit CHR ''.'', Lit CHR ''+'', Lit CHR ''-''] = local_char"
  by (auto simp: fun_eq_iff in_class_def local_char_def ascii_letter_def ascii_digit_def)

lemma label_class:
  "in_class [Range CHR ''a'' CHR ''z'', Range CHR ''A'' CHR ''Z'', Range CHR ''0'' CHR ''9'',
             Lit CHR ''-''] = label_char"
  by (auto simp: fun_eq_iff in_class_def label_char_def ascii_letter_def ascii_digit_def)

lemma trailing_class:
  "in_class [Range CHR ''a'' CHR ''z'', Range CHR ''A'' CHR ''Z'', Range CHR ''0'' CHR ''9'',
             Lit CHR ''-'', Lit CHR ''.''] = trailing_char"
  by (auto simp: fun_eq_iff in_class_def trailing_char_def ascii_letter_def ascii_digit_def)

lemma lang_email_regex: "w \<in> lang email_regex \<longleftrightarrow> address_shape trailing_char w"
proof -
  have "w \<in> lang email_regex \<longleftrightarrow>
      (\<exists>l a d p r. w = l @ a @ d @ p @ r \<and>
         (l \<noteq> [] \<and> list_all local_char l) \<and> a = ''@'' \<and>
         (d \<noteq> [] \<and> list_all label_char d) \<and> p = ''.'' \<and>
         (r \<noteq> [] \<and> list_all trailing_char r))"
    unfolding email_regex_def lang.simps(5) mem_Collect_eq
      lang_Plus1_Class lang_Lit local_class label_class trailing_class
    by blast
  also have "\<dots> \<longleftrightarrow> address_shape trailing_char w"
    unfolding address_shape_def by blast
  finally show ?thesis .
qed

lemma match_to_dollar_iff:
  "match_to_dollar r s \<longleftrightarrow> s \<in> lang r \<or> (\<exists>s'. s = s' @ [CHR 0x0A] \<and> s' \<in> lang r)"
proof -
  have "(s \<noteq> [] \<and> last s = CHR 0x0A \<and> butlast s \<in> lang r) \<longleftrightarrow>
      (\<exists>s'. s = s' @ [CHR 0x0A] \<and> s' \<in> lang r)"
    by (metis append_butlast_last_id butlast_snoc last_snoc snoc_eq_iff_butlast)
  then show ?thesis
    by (simp add: match_to_dollar_def fullmatch_lang)
qed

lemma is_valid_email_iff:
  "is_valid_email s \<longleftrightarrow>
     address_shape trailing_char s \<or> (\<exists>s'. s = s' @ [CHR 0x0A] \<and> address_shape trailing_char s')"
  by (simp add: is_valid_email_def match_to_dollar_iff lang_email_regex)

subsection \<open>Splitting, and the domain of a valid address\<close>

lemma split_py_nonempty: "split_py sep s \<noteq> []"
  by (induction s) auto

lemma split_py_no_sep: "sep \<notin> set s \<Longrightarrow> split_py sep s = [s]"
  by (induction s) auto

lemma split_py_append:
  "sep \<notin> set l \<Longrightarrow> split_py sep (l @ sep # rest) = l # split_py sep rest"
  by (induction l) auto

lemma length_split_py: "length (split_py sep s) = Suc (length (filter (\<lambda>c. c = sep) s))"
proof (induction s)
  case Nil
  show ?case by simp
next
  case (Cons c s)
  then show ?case
    using split_py_nonempty [of sep s] by (cases "split_py sep s") auto
qed

lemma split_py_many: "1 < length (split_py sep s) \<longleftrightarrow> sep \<in> set s"
  by (simp add: length_split_py filter_empty_conv)

lemma last_split_py: "last (split_py sep s) = rev (takeWhile (\<lambda>c. c \<noteq> sep) (rev s))"
proof (induction s)
  case Nil
  show ?case by simp
next
  case (Cons c s)
  obtain p ps where ps: "split_py sep s = p # ps"
    using split_py_nonempty [of sep s] by (cases "split_py sep s") auto
  show ?case
  proof (cases "sep \<in> set s")
    case True
    then have "ps \<noteq> []"
      using split_py_many [of sep s] ps by auto
    with Cons ps True show ?thesis
      by (auto simp: takeWhile_append)
  next
    case False
    then have "split_py sep s = [s]" by (rule split_py_no_sep)
    with False show ?thesis
      by (auto simp: takeWhile_append)
  qed
qed

lemma local_char_not_at: "local_char c \<Longrightarrow> c \<noteq> CHR ''@''"
  by (auto simp: local_char_def ascii_letter_def ascii_digit_def)

lemma label_char_not_at: "label_char c \<Longrightarrow> c \<noteq> CHR ''@''"
  by (auto simp: label_char_def ascii_letter_def ascii_digit_def)

lemma trailing_char_not_at: "trailing_char c \<Longrightarrow> c \<noteq> CHR ''@''"
  by (auto simp: trailing_char_def ascii_letter_def ascii_digit_def)

lemma address_shape_split:
  assumes "address_shape trailing_char s"
  shows "\<exists>l rest. s = l @ CHR ''@'' # rest \<and> CHR ''@'' \<notin> set l \<and> CHR ''@'' \<notin> set rest"
proof -
  from assms obtain l d r where s: "s = l @ ''@'' @ d @ ''.'' @ r"
    and l: "list_all local_char l" and d: "list_all label_char d"
    and r: "list_all trailing_char r"
    unfolding address_shape_def by blast
  have "CHR ''@'' \<notin> set l"
    using l local_char_not_at by (auto simp: list_all_iff)
  moreover have "CHR ''@'' \<notin> set (d @ ''.'' @ r)"
    using d r label_char_not_at trailing_char_not_at by (auto simp: list_all_iff)
  ultimately show ?thesis
    using s by (intro exI [of _ l] exI [of _ "d @ ''.'' @ r"]) simp
qed

lemma valid_split:
  assumes "is_valid_email email"
  shows "\<exists>l rest. email = l @ CHR ''@'' # rest \<and> CHR ''@'' \<notin> set l \<and> CHR ''@'' \<notin> set rest"
proof -
  from assms consider "address_shape trailing_char email"
    | s' where "email = s' @ [CHR 0x0A]" "address_shape trailing_char s'"
    unfolding is_valid_email_iff by blast
  then show ?thesis
  proof cases
    case 1
    then show ?thesis by (rule address_shape_split)
  next
    case 2
    from address_shape_split [OF 2(2)] obtain l rest
      where "s' = l @ CHR ''@'' # rest" "CHR ''@'' \<notin> set l" "CHR ''@'' \<notin> set rest"
      by blast
    with 2(1) have "email = l @ CHR ''@'' # (rest @ [CHR 0x0A]) \<and> CHR ''@'' \<notin> set l
        \<and> CHR ''@'' \<notin> set (rest @ [CHR 0x0A])"
      by simp
    then show ?thesis by blast
  qed
qed

lemma valid_get_domain:
  assumes "is_valid_email email"
  shows "get_domain email = ret (domain_part email)"
proof -
  from valid_split [OF assms] obtain l rest
    where e: "email = l @ CHR ''@'' # rest" and l: "CHR ''@'' \<notin> set l"
      and rest: "CHR ''@'' \<notin> set rest"
    by blast
  have "split_py CHR ''@'' email = [l, rest]"
    using e l rest by (simp add: split_py_append split_py_no_sep)
  moreover have "dropWhile (\<lambda>c. c \<noteq> CHR ''@'') (l @ CHR ''@'' # rest) = CHR ''@'' # rest"
    using l by (subst dropWhile_append2) auto
  then have "domain_part email = rest"
    using e by (simp add: domain_part_def)
  ultimately show ?thesis
    by (simp add: get_domain_def)
qed

subsection \<open>The syntax check\<close>

lemmas run_defs = ret_def raise_def bind_def try_except_def resolve_def smtp_open_def
  smtp_cmd_def first_item_def

lemma valid_user_example_com: "is_valid_email ''user@example.com''"
  by (simp add: is_valid_email_def match_to_dollar_def email_regex_def Plus1_def in_class_def)

lemma invalid_not_an_email: "\<not> is_valid_email ''not-an-email''"
  by (simp add: is_valid_email_def match_to_dollar_def email_regex_def Plus1_def in_class_def)

lemma invalid_double_at: "\<not> is_valid_email ''user@@example.com''"
  by (simp add: is_valid_email_def match_to_dollar_def email_regex_def Plus1_def in_class_def)

lemma valid_double_dot: "is_valid_email ''user@example..com''"
  by (simp add: is_valid_email_def match_to_dollar_def email_regex_def Plus1_def in_class_def)

lemma valid_final_dot: "is_valid_email ''user@example.com.''"
  by (simp add: is_valid_email_def match_to_dollar_def email_regex_def Plus1_def in_class_def)

lemma valid_hyphen_only: "is_valid_email ''user@a.-''"
  by (simp add: is_valid_email_def match_to_dollar_def email_regex_def Plus1_def in_class_def)

lemma address_shape_last:
  assumes "address_shape trailing s"
  shows "trailing (last s)"
proof -
  from assms obtain l d r where "s = l @ ''@'' @ d @ ''.'' @ r" "r \<noteq> []" "list_all trailing r"
    unfolding address_shape_def by blast
  then have "last s = last r" and "last r \<in> set r" by simp_all
  with \<open>list_all trailing r\<close> show ?thesis by (simp add: list_all_iff)
qed

text \<open>
  Claim C7, as the program has it. \<open>is_valid_email\<close> accepts exactly the strings
  \<open>local @ label . trailing\<close>, with a nonempty local part over \<open>[A-Za-z0-9_.+-]\<close>, a
  nonempty label over \<open>[A-Za-z0-9-]\<close> and a nonempty trailing part over
  \<open>[A-Za-z0-9.-]\<close> (the hyphen included), and those strings followed by one final
  newline. It accepts \<open>user@example.com\<close> and rejects \<open>not-an-email\<close> and
  \<open>user@@example.com\<close>.
\<close>

theorem C7_is_valid_email_pattern:
  "(is_valid_email s \<longleftrightarrow>
      address_shape trailing_char s \<or>
      (\<exists>s'. s = s' @ [CHR 0x0A] \<and> address_shape trailing_char s'))
   \<and> is_valid_email ''user@example.com''
   \<and> \<not> is_valid_email ''not-an-email''
   \<and> \<not> is_valid_email ''user@@example.com''"
  using is_valid_email_iff [of s] valid_user_example_com invalid_not_an_email invalid_double_at
  by blast

text \<open>
  Claim C7 as written allows only dots and alphanumerics after the first dot of the
  domain: \<open>user@a.-\<close> is accepted by the program and is not of that shape.
\<close>

theorem C7_hyphen_counterexample:
  "is_valid_email ''user@a.-'' \<and> \<not> address_shape spec_trailing_char ''user@a.-''"
proof -
  have "\<not> spec_trailing_char (last ''user@a.-'')"
    by (simp add: spec_trailing_char_def ascii_letter_def ascii_digit_def)
  then have "\<not> address_shape spec_trailing_char ''user@a.-''"
    using address_shape_last by blast
  with valid_hyphen_only show ?thesis by simp
qed

lemma grows_ret: "grows (ret x)"
  by (simp add: grows_def ret_def)

lemma grows_raise: "grows (raise e)"
  by (simp add: grows_def raise_def)

lemma grows_bind:
  assumes "grows m" and "\<And>x. grows (f x)"
  shows "grows (bind m f)"
  unfolding grows_def
proof
  fix t
  obtain r t' where mt: "m t = (r, t')" by (cases "m t")
  from assms(1) mt obtain e1 where t': "t' = t @ e1"
    unfolding grows_def by (metis snd_conv)
  show "\<exists>ext. snd (bind m f t) = t @ ext"
  proof (cases r)
    case (Return x)
    from assms(2) [of x] obtain e2 where "snd (f x t') = t' @ e2"
      unfolding grows_def by blast
    with mt Return t' show ?thesis by (simp add: bind_def)
  next
    case (Raise e)
    with mt t' show ?thesis by (simp add: bind_def)
  next
    case Blocks
    with mt t' show ?thesis by (simp add: bind_def)
  qed
qed

lemma grows_try_except:
  assumes "grows m" and "\<And>e. grows (h e)"
  shows "grows (try_except m h)"
  unfolding grows_def
proof
  fix t
  obtain r t' where mt: "m t = (r, t')" by (cases "m t")
  from assms(1) mt obtain e1 where t': "t' = t @ e1"
    unfolding grows_def by (metis snd_conv)
  show "\<exists>ext. snd (try_except m h t) = t @ ext"
  proof (cases r)
    case (Return x)
    with mt t' show ?thesis by (simp add: try_except_def)
  next
    case (Raise e)
    from assms(2) [of e] obtain e2 where "snd (h e t') = t' @ e2"
      unfolding grows_def by blast
    with mt Raise t' show ?thesis by (simp add: try_except_def)
  next
    case Blocks
    with mt t' show ?thesis by (simp add: try_except_def)
  qed
qed

lemma grows_resolve: "grows (resolve w name ty)"
  by (simp add: grows_def resolve_def)

lemma grows_smtp_open: "grows (smtp_open w host)"
  by (simp add: grows_def smtp_open_def)

lemma grows_smtp_cmd: "grows (smtp_cmd w r)"
  by (simp add: grows_def smtp_cmd_def)

lemma grows_first_item: "grows (first_item xs)"
  by (cases xs) (simp_all add: first_item_def grows_ret grows_raise)

lemma grows_get_domain: "grows (get_domain email)"
  by (simp add: get_domain_def grows_ret grows_raise split: list.splits)

lemma grows_domain_exists: "grows (domain_exists w d)"
  unfolding domain_exists_def
  by (intro grows_try_except grows_bind grows_resolve) (simp_all add: grows_ret grows_raise)

lemma grows_has_mx_records: "grows (has_mx_records w d)"
  unfolding has_mx_records_def
  by (intro grows_try_except grows_bind grows_resolve) (simp_all add: grows_ret grows_raise)

lemma grows_smtp_session: "grows (smtp_session w email d)"
  unfolding smtp_session_def
  by (intro grows_bind grows_resolve grows_first_item grows_smtp_open grows_smtp_cmd grows_ret)

lemma grows_smtp_verify: "grows (smtp_verify w email)"
  unfolding smtp_verify_def
  by (intro grows_bind grows_get_domain grows_try_except grows_smtp_session grows_ret)

lemma domain_exists_trace: "snd (domain_exists w d t) = t @ [Resolve d A]"
  by (simp add: domain_exists_def run_defs split: result.splits)

lemma has_mx_records_trace: "snd (has_mx_records w d t) = t @ [Resolve d MX]"
  by (simp add: has_mx_records_def run_defs split: result.splits)

lemma verify_email_valid:
  assumes "is_valid_email email"
  shows "verify_email lib w email =
     bind (domain_exists w (domain_part email)) (\<lambda>exists.
       if \<not> exists then ret (email, False, ''Domain Does Not Exist'', ''Unknown'')
       else
         bind (has_mx_records w (domain_part email)) (\<lambda>has_mx.
           if \<not> has_mx then ret (email, False, ''No MX Records'', ''Unknown'')
           else
             bind (smtp_verify w email) (\<lambda>verified.
               if \<not> verified
               then ret (email, False, ''Email Not Verified'',
                         get_country_by_domain lib (codes (domain_part email)))
               else ret (email, True, ''Verified'',
                         get_country_by_domain lib (codes (domain_part email))))))"
  using assms
  by (simp add: verify_email_def valid_get_domain fun_eq_iff) (simp add: bind_def ret_def)

lemma valid_starts_with_A_query:
  assumes "is_valid_email email"
  shows "take 1 (snd (verify_email lib w email [])) = [Resolve (domain_part email) A]"
proof -
  let ?d = "domain_part email"
  let ?k = "\<lambda>exists.
       if \<not> exists then ret (email, False, ''Domain Does Not Exist'', ''Unknown'')
       else
         bind (has_mx_records w ?d) (\<lambda>has_mx.
           if \<not> has_mx then ret (email, False, ''No MX Records'', ''Unknown'')
           else
             bind (smtp_verify w email) (\<lambda>verified.
               if \<not> verified
               then ret (email, False, ''Email Not Verified'', get_country_by_domain lib (codes ?d))
               else ret (email, True, ''Verified'', get_country_by_domain lib (codes ?d))))"
  have k: "grows (?k x)" for x
    by (auto intro!: grows_bind grows_ret grows_has_mx_records grows_smtp_verify)
  obtain r t where dx: "domain_exists w ?d [] = (r, t)"
    by (cases "domain_exists w ?d []")
  with domain_exists_trace [of w ?d "[]"] have t: "t = [Resolve ?d A]" by simp
  have "\<exists>ext. snd (bind (domain_exists w ?d) ?k []) = [Resolve ?d A] @ ext"
  proof (cases r)
    case (Return x)
    from k [of x] obtain ext where "snd (?k x t) = t @ ext"
      unfolding grows_def by blast
    with dx Return t show ?thesis by (simp add: bind_def)
  next
    case (Raise e)
    with dx t show ?thesis by (simp add: bind_def)
  next
    case Blocks
    with dx t show ?thesis by (simp add: bind_def)
  qed
  then show ?thesis
    unfolding verify_email_valid [OF assms] by auto
qed

text \<open>
  Claim C10. After the first dot of the domain any nonempty mix of letters, digits,
  hyphens and dots is accepted: every string \<open>l @ d . r\<close> with such parts is valid. In
  particular \<open>user@example..com\<close>, \<open>user@example.com.\<close> and \<open>user@a.-\<close> are valid, and for
  each of them the pipeline goes on to the network: the first request it makes is the
  A query for the domain.
\<close>

theorem C10_trailing_part_unstructured:
  "(l \<noteq> [] \<and> list_all local_char l \<and> d \<noteq> [] \<and> list_all label_char d \<and>
    r \<noteq> [] \<and> list_all trailing_char r
      \<longrightarrow> is_valid_email (l @ ''@'' @ d @ ''.'' @ r))
   \<and> is_valid_email ''user@example..com''
   \<and> is_valid_email ''user@example.com.''
   \<and> is_valid_email ''user@a.-''
   \<and> take 1 (snd (verify_email lib w ''user@example..com'' [])) = [Resolve ''example..com'' A]
   \<and> take 1 (snd (verify_email lib w ''user@example.com.'' [])) = [Resolve ''example.com.'' A]
   \<and> take 1 (snd (verify_email lib w ''user@a.-'' [])) = [Resolve ''a.-'' A]"
proof -
  have "is_valid_email (l @ ''@'' @ d @ ''.'' @ r)"
    if "l \<noteq> []" "list_all local_char l" "d \<noteq> []" "list_all label_char d"
      "r \<noteq> []" "list_all trailing_char r"
    unfolding is_valid_email_iff address_shape_def using that by blast
  moreover have "domain_part ''user@example..com'' = ''example..com''"
    and "domain_part ''user@example.com.'' = ''example.com.''"
    and "domain_part ''user@a.-'' = ''a.-''"
    by (simp_all add: domain_part_def)
  ultimately show ?thesis
    using valid_starts_with_A_query [OF valid_double_dot, of lib w]
      valid_starts_with_A_query [OF valid_final_dot, of lib w]
      valid_starts_with_A_query [OF valid_hyphen_only, of lib w]
      valid_double_dot valid_final_dot valid_hyphen_only
    by simp
qed

text \<open>
  The first part of C10 at \<open>a+b@x-y.-.-9..z\<close>.
\<close>

theorem C10_witness:
  "is_valid_email ''a+b@x-y.-.-9..z''"
proof -
  have "''a+b'' \<noteq> [] \<and> list_all local_char ''a+b'' \<and> ''x-y'' \<noteq> [] \<and> list_all label_char ''x-y''
      \<and> ''-.-9..z'' \<noteq> [] \<and> list_all trailing_char ''-.-9..z''"
    by (simp add: local_char_def label_char_def trailing_char_def ascii_letter_def ascii_digit_def)
  with C10_trailing_part_unstructured [of "''a+b''" "''x-y''" "''-.-9..z''"]
  show ?thesis by simp
qed

subsection \<open>The pipeline\<close>

lemma domain_exists_eq:
  "domain_exists w d t =
     (case resolver w t d A of
        Return _ \<Rightarrow> Return True
      | Raise e \<Rightarrow> if e = NXDOMAIN then Return False else Raise e
      | Blocks \<Rightarrow> Blocks,
      t @ [Resolve d A])"
  by (simp add: domain_exists_def run_defs split: result.splits)

lemma has_mx_records_eq:
  "has_mx_records w d t =
     (case resolver w t d MX of
        Return mx_records \<Rightarrow> Return (mx_records \<noteq> [])
      | Raise e \<Rightarrow> if e = NoAnswer \<or> e = NXDOMAIN then Return False else Raise e
      | Blocks \<Rightarrow> Blocks,
      t @ [Resolve d MX])"
  by (simp add: has_mx_records_def run_defs split: result.splits)

lemma bind_Raise: "m t = (Raise e, t') \<Longrightarrow> bind m f t = (Raise e, t')"
  by (simp add: bind_def)

lemma io_eqI: "fst (m t) = r \<Longrightarrow> snd (m t) = t' \<Longrightarrow> m t = (r, t')"
  by (cases "m t") simp

lemma bind_returns:
  assumes "fst (bind m f t) = Return y"
  shows "\<exists>x t'. m t = (Return x, t') \<and> fst (f x t') = Return y"
proof -
  obtain r t' where mt: "m t = (r, t')" by (cases "m t")
  show ?thesis
  proof (cases r)
    case (Return x)
    with assms mt show ?thesis by (simp add: bind_def)
  next
    case (Raise e)
    with assms mt show ?thesis by (simp add: bind_def)
  next
    case Blocks
    with assms mt show ?thesis by (simp add: bind_def)
  qed
qed

lemma accepted_iff_verified:
  assumes "fst (verify_email lib w email t) = Return (address, accepted, status, country)"
  shows "accepted \<longleftrightarrow> status = ''Verified''"
proof (cases "is_valid_email email")
  case False
  with assms show ?thesis by (auto simp: verify_email_def ret_def)
next
  case True
  note r = assms [unfolded verify_email_valid [OF True]]
  from bind_returns [OF r] obtain exists t1 where
    r1: "fst ((if \<not> exists then ret (email, False, ''Domain Does Not Exist'', ''Unknown'')
       else
         bind (has_mx_records w (domain_part email)) (\<lambda>has_mx.
           if \<not> has_mx then ret (email, False, ''No MX Records'', ''Unknown'')
           else
             bind (smtp_verify w email) (\<lambda>verified.
               if \<not> verified
               then ret (email, False, ''Email Not Verified'',
                         get_country_by_domain lib (codes (domain_part email)))
               else ret (email, True, ''Verified'',
                         get_country_by_domain lib (codes (domain_part email)))))) t1)
       = Return (address, accepted, status, country)"
    by blast
  show ?thesis
  proof (cases exists)
    case False
    with r1 show ?thesis by (auto simp: ret_def)
  next
    case True
    with r1 have "fst (bind (has_mx_records w (domain_part email)) (\<lambda>has_mx.
           if \<not> has_mx then ret (email, False, ''No MX Records'', ''Unknown'')
           else
             bind (smtp_verify w email) (\<lambda>verified.
               if \<not> verified
               then ret (email, False, ''Email Not Verified'',
                         get_country_by_domain lib (codes (domain_part email)))
               else ret (email, True, ''Verified'',
                         get_country_by_domain lib (codes (domain_part email))))) t1)
       = Return (address, accepted, status, country)"
      by simp
    from bind_returns [OF this] obtain has_mx t2 where
      r2: "fst ((if \<not> has_mx then ret (email, False, ''No MX Records'', ''Unknown'')
           else
             bind (smtp_verify w email) (\<lambda>verified.
               if \<not> verified
               then ret (email, False, ''Email Not Verified'',
                         get_country_by_domain lib (codes (domain_part email)))
               else ret (email, True, ''Verified'',
                         get_country_by_domain lib (codes (domain_part email))))) t2)
       = Return (address, accepted, status, country)"
      by blast
    show ?thesis
    proof (cases has_mx)
      case False
      with r2 show ?thesis by (auto simp: ret_def)
    next
      case True
      with r2 have "fst (bind (smtp_verify w email) (\<lambda>verified.
               if \<not> verified
               then ret (email, False, ''Email Not Verified'',
                         get_country_by_domain lib (codes (domain_part email)))
               else ret (email, True, ''Verified'',
                         get_country_by_domain lib (codes (domain_part email)))) t2)
       = Return (address, accepted, status, country)"
        by simp
      from bind_returns [OF this] obtain verified t3 where
        "fst ((if \<not> verified
               then ret (email, False, ''Email Not Verified'',
                         get_country_by_domain lib (codes (domain_part email)))
               else ret (email, True, ''Verified'',
                         get_country_by_domain lib (codes (domain_part email)))) t3)
       = Return (address, accepted, status, country)"
        by blast
      then show ?thesis
        by (cases verified) (auto simp: ret_def)
    qed
  qed
qed

text \<open>
  Claim C3. The pipeline stops at the first stage that fails, in the order syntax,
  domain, MX, probe. An address that fails the syntax check gets
  \<open>Invalid Email Syntax\<close> and country \<open>Unknown\<close>, and the trace is unchanged: no request
  was made. When \<open>domain_exists\<close> returns \<open>False\<close> the result is \<open>Domain Does Not Exist\<close>,
  \<open>Unknown\<close>, and the A query is the only request: no MX query. When \<open>has_mx_records\<close>
  returns \<open>False\<close> the result is \<open>No MX Records\<close>, \<open>Unknown\<close>, and the two queries are the
  only requests: the prober (a second MX query, then the SMTP session) did not run.
  In every result the pipeline returns, the second component is true exactly when the
  status is \<open>Verified\<close>.
\<close>

theorem C3_short_circuit:
  "(\<not> is_valid_email email \<longrightarrow>
      verify_email lib w email t =
        (Return (email, False, ''Invalid Email Syntax'', ''Unknown''), t))
   \<and> (is_valid_email email \<and> fst (domain_exists w (domain_part email) t) = Return False \<longrightarrow>
      verify_email lib w email t =
        (Return (email, False, ''Domain Does Not Exist'', ''Unknown''),
         t @ [Resolve (domain_part email) A]))
   \<and> (is_valid_email email \<and> fst (domain_exists w (domain_part email) t) = Return True \<and>
      fst (has_mx_records w (domain_part email) (t @ [Resolve (domain_part email) A])) = Return False \<longrightarrow>
      verify_email lib w email t =
        (Return (email, False, ''No MX Records'', ''Unknown''),
         t @ [Resolve (domain_part email) A, Resolve (domain_part email) MX]))
   \<and> (fst (verify_email lib w email t) = Return (address, accepted, status, country) \<longrightarrow>
      (accepted \<longleftrightarrow> status = ''Verified''))"
proof (intro conjI impI)
  assume "\<not> is_valid_email email"
  then show "verify_email lib w email t =
      (Return (email, False, ''Invalid Email Syntax'', ''Unknown''), t)"
    by (simp add: verify_email_def ret_def)
next
  let ?d = "domain_part email"
  assume a: "is_valid_email email \<and> fst (domain_exists w ?d t) = Return False"
  then have v: "is_valid_email email" by simp
  from a have dx: "domain_exists w ?d t = (Return False, t @ [Resolve ?d A])"
    by (intro io_eqI) (simp_all add: domain_exists_trace)
  show "verify_email lib w email t =
      (Return (email, False, ''Domain Does Not Exist'', ''Unknown''), t @ [Resolve ?d A])"
    unfolding verify_email_valid [OF v] by (simp add: bind_def dx ret_def)
next
  let ?d = "domain_part email"
  assume a: "is_valid_email email \<and> fst (domain_exists w ?d t) = Return True \<and>
      fst (has_mx_records w ?d (t @ [Resolve ?d A])) = Return False"
  then have v: "is_valid_email email" by simp
  from a have dx: "domain_exists w ?d t = (Return True, t @ [Resolve ?d A])"
    by (intro io_eqI) (simp_all add: domain_exists_trace)
  from a have mx: "has_mx_records w ?d (t @ [Resolve ?d A]) =
        (Return False, (t @ [Resolve ?d A]) @ [Resolve ?d MX])"
    by (intro io_eqI) (simp_all add: has_mx_records_trace)
  show "verify_email lib w email t =
      (Return (email, False, ''No MX Records'', ''Unknown''), t @ [Resolve ?d A, Resolve ?d MX])"
    unfolding verify_email_valid [OF v]
    by (simp add: bind_def dx mx ret_def)
next
  assume "fst (verify_email lib w email t) = Return (address, accepted, status, country)"
  then show "accepted \<longleftrightarrow> status = ''Verified''"
    by (rule accepted_iff_verified)
qed

lemma valid_user_example_de: "is_valid_email ''user@example.de''"
  by (simp add: is_valid_email_def match_to_dollar_def email_regex_def Plus1_def in_class_def)

lemma domain_user_example_de: "domain_part ''user@example.de'' = ''example.de''"
  by (simp add: domain_part_def)

lemma domain_user_example_com: "domain_part ''user@example.com'' = ''example.com''"
  by (simp add: domain_part_def)

text \<open>
  C3 at a malformed address, at a domain that does not exist and at a domain with no
  MX record.
\<close>

theorem C3_witness:
  "verify_email sample_library nxdomain_world ''not-an-email'' [] =
     (Return (''not-an-email'', False, ''Invalid Email Syntax'', ''Unknown''), [])
   \<and> verify_email sample_library nxdomain_world ''user@example.de'' [] =
     (Return (''user@example.de'', False, ''Domain Does Not Exist'', ''Unknown''),
      [Resolve ''example.de'' A])
   \<and> verify_email sample_library no_mx_world ''user@example.de'' [] =
     (Return (''user@example.de'', False, ''No MX Records'', ''Unknown''),
      [Resolve ''example.de'' A, Resolve ''example.de'' MX])"
proof -
  have nx: "fst (domain_exists nxdomain_world ''example.de'' []) = Return False"
    by (simp add: domain_exists_eq nxdomain_world_def fixed_world_def)
  have ex: "fst (domain_exists no_mx_world ''example.de'' []) = Return True"
    by (simp add: domain_exists_eq no_mx_world_def fixed_world_def)
  have mx: "fst (has_mx_records no_mx_world ''example.de'' [Resolve ''example.de'' A]) = Return False"
    by (simp add: has_mx_records_eq no_mx_world_def fixed_world_def)
  show ?thesis
    using C3_short_circuit [of "''not-an-email''" sample_library nxdomain_world "[]"]
      C3_short_circuit [of "''user@example.de''" sample_library nxdomain_world "[]"]
      C3_short_circuit [of "''user@example.de''" sample_library no_mx_world "[]"]
      invalid_not_an_email valid_user_example_de nx ex mx
    by (simp add: domain_user_example_de)
qed

text \<open>
  Claim C1 fails on the program. For a domain with MX records and no A record the
  resolver raises \<open>NoAnswer\<close> on the A query; \<open>domain_exists\<close> catches \<open>NXDOMAIN\<close> only, so
  the exception leaves \<open>verify_email\<close> and no result is returned.
\<close>

theorem C1_resolver_error_escapes:
  "verify_email sample_library mail_only_world ''user@example.com'' [] =
     (Raise NoAnswer, [Resolve ''example.com'' A])"
proof -
  have "domain_exists mail_only_world ''example.com'' [] = (Raise NoAnswer, [Resolve ''example.com'' A])"
    by (simp add: domain_exists_eq mail_only_world_def fixed_world_def)
  then show ?thesis
    unfolding verify_email_valid [OF valid_user_example_com] domain_user_example_com
    by (rule bind_Raise)
qed

text \<open>
  Claim C4 fails on the program. On the resolver outcome \<open>NoAnswer\<close>, which is not
  a report that the name does not exist, \<open>domain_exists\<close> returns no boolean: it raises.
\<close>

theorem C4_domain_exists_raises:
  "domain_exists mail_only_world ''example.com'' [] = (Raise NoAnswer, [Resolve ''example.com'' A])"
  by (simp add: domain_exists_def run_defs mail_only_world_def fixed_world_def)

subsection \<open>The country of a domain\<close>

lemma get_country_by_domain_eq:
  "get_country_by_domain lib domain =
     (if 46 \<in> set domain \<and> isalpha lib (last_label domain) \<and> length (last_label domain) = 2
      then (case countries_get lib (upper lib (last_label domain)) of
              Some name \<Rightarrow> name
            | None \<Rightarrow> ''Unknown'')
      else ''Unknown'')"
  using split_py_many [of "46::nat" domain]
  by (simp add: get_country_by_domain_def Let_def last_split_py last_label_def)

lemma last_label_example_de: "last_label (codes ''example.de'') = codes ''de''"
  by (simp add: last_label_def codes_def)

lemma last_label_example_com: "last_label (codes ''example.com'') = codes ''com''"
  by (simp add: last_label_def codes_def)

lemma upper_de: "upper lib (codes ''de'') = codes ''DE''"
  by (simp add: upper_def upper_cp_def codes_def)

lemma isalpha_de: "isalpha lib (codes ''de'')"
  by (simp add: isalpha_def isalpha_cp_def codes_def)

text \<open>
  Claim C6, as the program has it. The domain is split on dots; when it has a dot and
  its last label is two alphabetic characters (as \<open>str.isalpha\<close> has it), the label is
  uppercased (as \<open>str.upper\<close> does) and looked up in the country table: the country's
  name if it is there, \<open>Unknown\<close> if not. Every other domain gives \<open>Unknown\<close>, a domain with
  no dot included. With \<open>DE\<close> for Germany in the table \<open>example.de\<close> gives \<open>Germany\<close>;
  \<open>example.com\<close> gives \<open>Unknown\<close>.
\<close>

theorem C6_country_by_last_label:
  "get_country_by_domain lib domain =
     (if 46 \<in> set domain \<and> isalpha lib (last_label domain) \<and> length (last_label domain) = 2
      then (case countries_get lib (upper lib (last_label domain)) of
              Some name \<Rightarrow> name
            | None \<Rightarrow> ''Unknown'')
      else ''Unknown'')
   \<and> (countries_get lib (codes ''DE'') = Some ''Germany'' \<longrightarrow>
        get_country_by_domain lib (codes ''example.de'') = ''Germany'')
   \<and> get_country_by_domain lib (codes ''example.com'') = ''Unknown''"
proof (intro conjI impI)
  show "get_country_by_domain lib domain =
     (if 46 \<in> set domain \<and> isalpha lib (last_label domain) \<and> length (last_label domain) = 2
      then (case countries_get lib (upper lib (last_label domain)) of
              Some name \<Rightarrow> name
            | None \<Rightarrow> ''Unknown'')
      else ''Unknown'')"
    by (rule get_country_by_domain_eq)
next
  assume "countries_get lib (codes ''DE'') = Some ''Germany''"
  moreover have "46 \<in> set (codes ''example.de'')" and "length (codes ''de'') = 2"
    by (simp_all add: codes_def)
  ultimately show "get_country_by_domain lib (codes ''example.de'') = ''Germany''"
    by (simp add: get_country_by_domain_eq last_label_example_de upper_de isalpha_de)
next
  have "length (codes ''com'') \<noteq> 2"
    by (simp add: codes_def)
  then show "get_country_by_domain lib (codes ''example.com'') = ''Unknown''"
    by (simp add: get_country_by_domain_eq last_label_example_com)
qed

text \<open>
  C6 with the sample table: at a code of the table, at a two-letter label that is no
  code of it, and at \<open>example.\<close> followed by a dotless i and \<open>t\<close>, whose uppercase is
  the code \<open>IT\<close>.
\<close>

theorem C6_witness:
  "get_country_by_domain sample_library (codes ''example.de'') = ''Germany''
   \<and> get_country_by_domain sample_library (codes ''example.zz'') = ''Unknown''
   \<and> get_country_by_domain sample_library (codes ''example.'' @ [305, 116]) = ''Italy''"
proof -
  have "countries_get sample_library (codes ''DE'') = Some ''Germany''"
    by (simp add: sample_library_def)
  then have de: "get_country_by_domain sample_library (codes ''example.de'') = ''Germany''"
    using C6_country_by_last_label [of sample_library "codes ''example.de''",
        THEN conjunct2, THEN conjunct1]
    by simp
  have zz: "get_country_by_domain sample_library (codes ''example.zz'') = ''Unknown''"
    using C6_country_by_last_label [of sample_library "codes ''example.zz''", THEN conjunct1]
    by (simp add: last_label_def isalpha_def isalpha_cp_def upper_def upper_cp_def codes_def
        sample_library_def)
  have it: "get_country_by_domain sample_library (codes ''example.'' @ [305, 116]) = ''Italy''"
    using C6_country_by_last_label [of sample_library "codes ''example.'' @ [305, 116]",
        THEN conjunct1]
    by (simp add: last_label_def isalpha_def isalpha_cp_def upper_def upper_cp_def codes_def
        sample_library_def)
  from de zz it show ?thesis by simp
qed

text \<open>
  Claim C6 as written takes a domain that is one two-letter label to be looked up
  too. The program asks for more than one part: \<open>de\<close> is its own last label, alphabetic,
  of length two, its uppercase is a code of the table, and the answer is \<open>Unknown\<close>.
\<close>

theorem C6_single_label_counterexample:
  "last_label (codes ''de'') = codes ''de'' \<and> isalpha sample_library (codes ''de'')
   \<and> length (codes ''de'') = 2
   \<and> countries_get sample_library (upper sample_library (codes ''de'')) = Some ''Germany''
   \<and> get_country_by_domain sample_library (codes ''de'') = ''Unknown''"
  by (simp add: last_label_def isalpha_de upper_de get_country_by_domain_def)
    (simp add: codes_def sample_library_def)

subsection \<open>The outcomes of the probe\<close>

lemma smtp_session_returns:
  assumes "fst (smtp_session w email d t) = Return b"
  shows "\<exists>h code.
           mail_server w (t @ [Resolve d MX, Connect h, Helo, Mail ''test@example.com''])
             (Rcpt email) = Return code \<and> b = (code = 250)"
  using assms
  by (auto simp: smtp_session_def run_defs split: result.splits list.splits)

lemma smtp_verify_valid:
  assumes "is_valid_email email"
  shows "smtp_verify w email t =
     try_except (smtp_session w email (domain_part email)) (\<lambda>e. ret False) t"
  by (simp add: smtp_verify_def valid_get_domain [OF assms] bind_def ret_def)

lemma smtp_verify_rejected:
  assumes "is_valid_email email"
    and "fst (smtp_session w email (domain_part email) t) = Return False"
  shows "fst (smtp_verify w email t) = Return False"
  using assms(2) unfolding smtp_verify_valid [OF assms(1)]
  by (cases "smtp_session w email (domain_part email) t") (simp add: try_except_def)

lemma smtp_verify_failed:
  assumes "is_valid_email email"
    and "fst (smtp_session w email (domain_part email) t) = Raise e"
  shows "fst (smtp_verify w email t) = Return False"
  using assms(2) unfolding smtp_verify_valid [OF assms(1)]
  by (cases "smtp_session w email (domain_part email) t") (simp add: try_except_def ret_def)

lemma verify_email_probe:
  assumes v: "is_valid_email email"
    and dx: "fst (domain_exists w (domain_part email) t) = Return True"
    and mx: "fst (has_mx_records w (domain_part email) (t @ [Resolve (domain_part email) A]))
        = Return True"
  shows "fst (verify_email lib w email t) =
     (case fst (smtp_verify w email
           (t @ [Resolve (domain_part email) A, Resolve (domain_part email) MX])) of
        Return verified \<Rightarrow>
          Return (email, verified, if verified then ''Verified'' else ''Email Not Verified'',
                  get_country_by_domain lib (codes (domain_part email)))
      | Raise e \<Rightarrow> Raise e
      | Blocks \<Rightarrow> Blocks)"
proof -
  let ?d = "domain_part email"
  from dx have dx': "domain_exists w ?d t = (Return True, t @ [Resolve ?d A])"
    by (intro io_eqI) (simp_all add: domain_exists_trace)
  from mx have mx': "has_mx_records w ?d (t @ [Resolve ?d A]) =
      (Return True, t @ [Resolve ?d A, Resolve ?d MX])"
    by (intro io_eqI) (simp_all add: has_mx_records_trace)
  obtain r t' where sv: "smtp_verify w email (t @ [Resolve ?d A, Resolve ?d MX]) = (r, t')"
    by (cases "smtp_verify w email (t @ [Resolve ?d A, Resolve ?d MX])")
  show ?thesis
    unfolding verify_email_valid [OF v]
    by (cases r) (auto simp: bind_def dx' mx' sv ret_def)
qed

text \<open>
  Claim C5, as the program has it. The probe has one negative outcome. When the SMTP
  session returns \<open>False\<close> (the server answered \<open>RCPT\<close> with a code other than 250: the
  last part says a returned value is that comparison) and when the session raises (the
  probe could not complete), \<open>smtp_verify\<close> returns the same \<open>False\<close>; and for a valid address
  whose domain exists and has MX records, a probe that returns \<open>False\<close> gives the result
  \<open>Email Not Verified\<close>, not accepted, with the country of the domain.
\<close>

theorem C5_one_status_for_rejection_and_failure:
  "(is_valid_email email \<and>
    fst (domain_exists w (domain_part email) t) = Return True \<and>
    fst (has_mx_records w (domain_part email) (t @ [Resolve (domain_part email) A])) = Return True \<and>
    fst (smtp_verify w email
          (t @ [Resolve (domain_part email) A, Resolve (domain_part email) MX])) = Return False
      \<longrightarrow> fst (verify_email lib w email t) =
            Return (email, False, ''Email Not Verified'',
                    get_country_by_domain lib (codes (domain_part email))))
   \<and> (is_valid_email email \<and> fst (smtp_session w email (domain_part email) t) = Return False
      \<longrightarrow> fst (smtp_verify w email t) = Return False)
   \<and> (is_valid_email email \<and> fst (smtp_session w email (domain_part email) t) = Raise e
      \<longrightarrow> fst (smtp_verify w email t) = Return False)
   \<and> (fst (smtp_session w email d t) = Return b
      \<longrightarrow> (\<exists>h code.
            mail_server w (t @ [Resolve d MX, Connect h, Helo, Mail ''test@example.com''])
              (Rcpt email) = Return code \<and> b = (code = 250)))"
  using verify_email_probe [of email w t lib] smtp_verify_rejected [of email w t]
    smtp_verify_failed [of email w t e] smtp_session_returns [of w email d t b]
  by simp


lemma session_rejecting:
  "smtp_session (healthy_world rejecting) ''user@example.de'' ''example.de'' t =
     (Return False,
      t @ [Resolve ''example.de'' MX, Connect ''mx.example.de.'', Helo,
           Mail ''test@example.com'', Rcpt ''user@example.de'', Quit])"
  by (simp add: smtp_session_def run_defs healthy_world_def fixed_world_def rejecting_def)

lemma session_refusing:
  "smtp_session refusing_mx_world ''user@example.de'' ''example.de'' t =
     (Raise ConnectionRefusedError, t @ [Resolve ''example.de'' MX, Connect ''mx.example.de.''])"
  by (simp add: smtp_session_def run_defs refusing_mx_world_def fixed_world_def)

lemma session_accepting:
  "smtp_session (healthy_world accepting) ''user@example.de'' ''example.de'' t =
     (Return True,
      t @ [Resolve ''example.de'' MX, Connect ''mx.example.de.'', Helo,
           Mail ''test@example.com'', Rcpt ''user@example.de'', Quit])"
  by (simp add: smtp_session_def run_defs healthy_world_def fixed_world_def accepting_def)

lemma session_silent:
  "smtp_session silent_mx_world ''user@example.de'' ''example.de'' t =
     (Blocks, t @ [Resolve ''example.de'' MX, Connect ''mx.example.de.''])"
  by (simp add: smtp_session_def run_defs silent_mx_world_def fixed_world_def)

lemma stages_healthy:
  "fst (domain_exists (healthy_world srv) ''example.de'' t) = Return True"
  "fst (has_mx_records (healthy_world srv) ''example.de'' t) = Return True"
  by (simp_all add: domain_exists_eq has_mx_records_eq healthy_world_def fixed_world_def)

lemma stages_refusing:
  "fst (domain_exists refusing_mx_world ''example.de'' t) = Return True"
  "fst (has_mx_records refusing_mx_world ''example.de'' t) = Return True"
  by (simp_all add: domain_exists_eq has_mx_records_eq refusing_mx_world_def fixed_world_def)

lemma stages_silent:
  "fst (domain_exists silent_mx_world ''example.de'' t) = Return True"
  "fst (has_mx_records silent_mx_world ''example.de'' t) = Return True"
  by (simp_all add: domain_exists_eq has_mx_records_eq silent_mx_world_def fixed_world_def)

lemma country_example_de:
  "get_country_by_domain sample_library (codes ''example.de'') = ''Germany''"
proof -
  have "46 \<in> set (codes ''example.de'')" and "length (codes ''de'') = 2"
    and "countries_get sample_library (codes ''DE'') = Some ''Germany''"
    by (simp_all add: codes_def sample_library_def)
  then show ?thesis
    by (simp add: get_country_by_domain_eq last_label_example_de isalpha_de upper_de)
qed

lemma verify_rejecting:
  "fst (verify_email sample_library (healthy_world rejecting) ''user@example.de'' []) =
     Return (''user@example.de'', False, ''Email Not Verified'', ''Germany'')"
  using verify_email_probe [OF valid_user_example_de, of "healthy_world rejecting" "[]" sample_library]
  by (simp add: domain_user_example_de stages_healthy country_example_de
      smtp_verify_valid [OF valid_user_example_de] try_except_def session_rejecting)

lemma verify_refusing:
  "fst (verify_email sample_library refusing_mx_world ''user@example.de'' []) =
     Return (''user@example.de'', False, ''Email Not Verified'', ''Germany'')"
  using verify_email_probe [OF valid_user_example_de, of refusing_mx_world "[]" sample_library]
  by (simp add: domain_user_example_de stages_refusing country_example_de
      smtp_verify_valid [OF valid_user_example_de] try_except_def session_refusing ret_def)

lemma verify_accepting:
  "fst (verify_email sample_library (healthy_world accepting) ''user@example.de'' []) =
     Return (''user@example.de'', True, ''Verified'', ''Germany'')"
  using verify_email_probe [OF valid_user_example_de, of "healthy_world accepting" "[]" sample_library]
  by (simp add: domain_user_example_de stages_healthy country_example_de
      smtp_verify_valid [OF valid_user_example_de] try_except_def session_accepting)

lemma verify_silent:
  "fst (verify_email sample_library silent_mx_world ''user@example.de'' []) = Blocks"
  using verify_email_probe [OF valid_user_example_de, of silent_mx_world "[]" sample_library]
  by (simp add: domain_user_example_de stages_silent
      smtp_verify_valid [OF valid_user_example_de] try_except_def session_silent)

text \<open>
  Claim C5 as written has two statuses. A server that answers \<open>RCPT\<close> with 550 and a
  server that refuses the connection give the same result, status included.
\<close>

theorem C5_same_result_counterexample:
  "fst (smtp_session (healthy_world rejecting) ''user@example.de'' ''example.de''
         [Resolve ''example.de'' A, Resolve ''example.de'' MX]) = Return False
   \<and> fst (smtp_session refusing_mx_world ''user@example.de'' ''example.de''
         [Resolve ''example.de'' A, Resolve ''example.de'' MX]) = Raise ConnectionRefusedError
   \<and> fst (verify_email sample_library (healthy_world rejecting) ''user@example.de'' []) =
       Return (''user@example.de'', False, ''Email Not Verified'', ''Germany'')
   \<and> fst (verify_email sample_library refusing_mx_world ''user@example.de'' []) =
       Return (''user@example.de'', False, ''Email Not Verified'', ''Germany'')"
  by (simp add: session_rejecting session_refusing verify_rejecting verify_refusing)

text \<open>
  C5 at a rejecting server and at a server that refuses the connection.
\<close>

theorem C5_witness:
  "fst (smtp_verify (healthy_world rejecting) ''user@example.de'' []) = Return False
   \<and> fst (smtp_verify refusing_mx_world ''user@example.de'' []) = Return False
   \<and> fst (verify_email sample_library refusing_mx_world ''user@example.de'' []) =
       Return (''user@example.de'', False, ''Email Not Verified'',
               get_country_by_domain sample_library (codes ''example.de''))"
proof -
  have a: "fst (smtp_verify (healthy_world rejecting) ''user@example.de'' []) = Return False"
    using C5_one_status_for_rejection_and_failure
      [of "''user@example.de''" "healthy_world rejecting" "[]"]
    by (simp add: valid_user_example_de domain_user_example_de session_rejecting)
  have b: "fst (smtp_verify refusing_mx_world ''user@example.de'' t) = Return False" for t
    using C5_one_status_for_rejection_and_failure
      [of "''user@example.de''" refusing_mx_world t _ ConnectionRefusedError]
    by (simp add: valid_user_example_de domain_user_example_de session_refusing)
  have c: "fst (verify_email sample_library refusing_mx_world ''user@example.de'' []) =
       Return (''user@example.de'', False, ''Email Not Verified'',
               get_country_by_domain sample_library (codes ''example.de''))"
    using C5_one_status_for_rejection_and_failure
      [of "''user@example.de''" refusing_mx_world "[]" sample_library]
    by (simp add: valid_user_example_de domain_user_example_de stages_refusing b)
  from a b c show ?thesis by simp
qed


subsection \<open>The socket of the probe\<close>

lemma smtp_verify_dropping_at_helo:
  "smtp_verify (healthy_world dropping_at_helo) ''user@example.de'' [] =
     (Return False, [Resolve ''example.de'' MX, Connect ''mx.example.de.'', Helo])"
  by (simp add: smtp_verify_def smtp_session_def get_domain_def run_defs healthy_world_def
      fixed_world_def dropping_at_helo_def)







text \<open>
  The probe itself closes nothing on an error: with a client that kept its socket open
  when it raised, the socket would be open after the probe returned.
\<close>

lemma probe_relies_on_the_client:
  "socket_after (healthy_world dropping_at_helo) (\<lambda>e. False) []
     (requests_made (smtp_verify (healthy_world dropping_at_helo) ''user@example.de'') []) False"
proof -
  have "requests_made (smtp_verify (healthy_world dropping_at_helo) ''user@example.de'') [] =
      [Resolve ''example.de'' MX, Connect ''mx.example.de.'', Helo]"
    by (simp add: requests_made_def smtp_verify_dropping_at_helo)
  then show ?thesis
    by (simp add: socket_step_def healthy_world_def fixed_world_def dropping_at_helo_def)
qed

subsection \<open>The probe and blocking\<close>

lemma completes_ret: "completes (ret x)"
  by (simp add: completes_def ret_def)

lemma completes_raise: "completes (raise e)"
  by (simp add: completes_def raise_def)

lemma completes_bind:
  assumes "completes m" and "\<And>x. completes (f x)"
  shows "completes (bind m f)"
  unfolding completes_def
proof
  fix t
  obtain r t' where mt: "m t = (r, t')" by (cases "m t")
  with assms(1) have "r \<noteq> Blocks"
    unfolding completes_def by (metis fst_conv)
  then show "fst (bind m f t) \<noteq> Blocks"
    using mt assms(2) unfolding completes_def
    by (cases r) (simp_all add: bind_def)
qed

lemma completes_try_except:
  assumes "completes m" and "\<And>e. completes (h e)"
  shows "completes (try_except m h)"
  unfolding completes_def
proof
  fix t
  obtain r t' where mt: "m t = (r, t')" by (cases "m t")
  with assms(1) have "r \<noteq> Blocks"
    unfolding completes_def by (metis fst_conv)
  then show "fst (try_except m h t) \<noteq> Blocks"
    using mt assms(2) unfolding completes_def
    by (cases r) (simp_all add: try_except_def)
qed

lemma completes_resolve: "responsive w \<Longrightarrow> completes (resolve w name ty)"
  by (simp add: completes_def responsive_def resolve_def)

lemma completes_smtp_open: "responsive w \<Longrightarrow> completes (smtp_open w host)"
  by (simp add: completes_def responsive_def smtp_open_def)

lemma completes_smtp_cmd: "responsive w \<Longrightarrow> completes (smtp_cmd w r)"
  by (simp add: completes_def responsive_def smtp_cmd_def)

lemma completes_first_item: "completes (first_item xs)"
  by (cases xs) (simp_all add: first_item_def completes_ret completes_raise)

lemma completes_get_domain: "completes (get_domain email)"
  by (simp add: get_domain_def completes_ret completes_raise split: list.splits)

lemma completes_domain_exists: "responsive w \<Longrightarrow> completes (domain_exists w d)"
  unfolding domain_exists_def
  by (intro completes_try_except completes_bind completes_resolve)
    (simp_all add: completes_ret completes_raise)

lemma completes_has_mx_records: "responsive w \<Longrightarrow> completes (has_mx_records w d)"
  unfolding has_mx_records_def
  by (intro completes_try_except completes_bind completes_resolve)
    (simp_all add: completes_ret completes_raise)

lemma completes_smtp_session: "responsive w \<Longrightarrow> completes (smtp_session w email d)"
  unfolding smtp_session_def
  by (intro completes_bind completes_resolve completes_first_item completes_smtp_open
      completes_smtp_cmd completes_ret)

lemma completes_smtp_verify: "responsive w \<Longrightarrow> completes (smtp_verify w email)"
  unfolding smtp_verify_def
  by (intro completes_bind completes_get_domain completes_try_except completes_smtp_session
      completes_ret)

lemma completes_verify_email:
  assumes "responsive w"
  shows "completes (verify_email lib w email)"
proof (cases "is_valid_email email")
  case False
  then show ?thesis
    by (simp add: verify_email_def completes_ret)
next
  case True
  have "completes (bind (get_domain email) (\<lambda>domain.
        bind (domain_exists w domain) (\<lambda>exists.
          if \<not> exists then ret (email, False, ''Domain Does Not Exist'', ''Unknown'')
          else
            bind (has_mx_records w domain) (\<lambda>has_mx.
              if \<not> has_mx then ret (email, False, ''No MX Records'', ''Unknown'')
              else
                bind (smtp_verify w email) (\<lambda>verified.
                  if \<not> verified
                  then ret (email, False, ''Email Not Verified'',
                            get_country_by_domain lib (codes domain))
                  else ret (email, True, ''Verified'',
                            get_country_by_domain lib (codes domain)))))))"
    using assms
    by (auto intro!: completes_bind completes_get_domain completes_domain_exists
        completes_has_mx_records completes_smtp_verify completes_ret)
  with True show ?thesis
    by (simp add: verify_email_def)
qed

lemma session_blocks_at_step:
  assumes "resolver w t d MX = Return (h # hs)"
    and "mail_connect w (t @ [Resolve d MX]) h = Blocks
         \<or> (mail_connect w (t @ [Resolve d MX]) h = Return () \<and>
             mail_server w (t @ [Resolve d MX, Connect h]) Helo = Blocks)
         \<or> (mail_connect w (t @ [Resolve d MX]) h = Return () \<and>
             mail_server w (t @ [Resolve d MX, Connect h]) Helo = Return c1 \<and>
             mail_server w (t @ [Resolve d MX, Connect h, Helo]) (Mail ''test@example.com'') = Blocks)
         \<or> (mail_connect w (t @ [Resolve d MX]) h = Return () \<and>
             mail_server w (t @ [Resolve d MX, Connect h]) Helo = Return c1 \<and>
             mail_server w (t @ [Resolve d MX, Connect h, Helo]) (Mail ''test@example.com'') = Return c2 \<and>
             mail_server w (t @ [Resolve d MX, Connect h, Helo, Mail ''test@example.com''])
               (Rcpt email) = Blocks)
         \<or> (mail_connect w (t @ [Resolve d MX]) h = Return () \<and>
             mail_server w (t @ [Resolve d MX, Connect h]) Helo = Return c1 \<and>
             mail_server w (t @ [Resolve d MX, Connect h, Helo]) (Mail ''test@example.com'') = Return c2 \<and>
             mail_server w (t @ [Resolve d MX, Connect h, Helo, Mail ''test@example.com''])
               (Rcpt email) = Return c3 \<and>
             mail_server w (t @ [Resolve d MX, Connect h, Helo, Mail ''test@example.com'',
               Rcpt email]) Quit = Blocks)"
  shows "fst (smtp_session w email d t) = Blocks"
  using assms by (auto simp: smtp_session_def run_defs)

lemma smtp_verify_blocks:
  assumes "is_valid_email email"
    and "fst (smtp_session w email (domain_part email) t) = Blocks"
  shows "fst (smtp_verify w email t) = Blocks"
  using assms(2) unfolding smtp_verify_valid [OF assms(1)]
  by (cases "smtp_session w email (domain_part email) t") (simp add: try_except_def)

lemma verify_email_blocks:
  assumes "is_valid_email email"
    and "fst (domain_exists w (domain_part email) t) = Return True"
    and "fst (has_mx_records w (domain_part email) (t @ [Resolve (domain_part email) A]))
        = Return True"
    and "fst (smtp_session w email (domain_part email)
          (t @ [Resolve (domain_part email) A, Resolve (domain_part email) MX])) = Blocks"
  shows "fst (verify_email lib w email t) = Blocks"
  using verify_email_probe [OF assms(1-3), of lib] smtp_verify_blocks [OF assms(1,4)]
  by simp

text \<open>
  Claim C8, as the program has it. The probe sets no timeout. On a responsive network
  the pipeline completes (it returns or raises). When the mail exchanger does not
  answer the connection, or does not answer one of \<open>HELO\<close>, \<open>MAIL\<close>, \<open>RCPT\<close> and \<open>QUIT\<close> after
  the steps before it returned, the SMTP session blocks; and when the session blocks,
  for a valid address whose domain exists and has MX records, the pipeline blocks: it
  gives no result.
\<close>

theorem C8_no_timeout_on_the_probe:
  "(responsive w \<longrightarrow> fst (verify_email lib w email t) \<noteq> Blocks)
   \<and> (resolver w t d MX = Return (h # hs) \<and>
       (mail_connect w (t @ [Resolve d MX]) h = Blocks
         \<or> (mail_connect w (t @ [Resolve d MX]) h = Return () \<and>
             mail_server w (t @ [Resolve d MX, Connect h]) Helo = Blocks)
         \<or> (mail_connect w (t @ [Resolve d MX]) h = Return () \<and>
             mail_server w (t @ [Resolve d MX, Connect h]) Helo = Return c1 \<and>
             mail_server w (t @ [Resolve d MX, Connect h, Helo]) (Mail ''test@example.com'') = Blocks)
         \<or> (mail_connect w (t @ [Resolve d MX]) h = Return () \<and>
             mail_server w (t @ [Resolve d MX, Connect h]) Helo = Return c1 \<and>
             mail_server w (t @ [Resolve d MX, Connect h, Helo]) (Mail ''test@example.com'') = Return c2 \<and>
             mail_server w (t @ [Resolve d MX, Connect h, Helo, Mail ''test@example.com''])
               (Rcpt email) = Blocks)
         \<or> (mail_connect w (t @ [Resolve d MX]) h = Return () \<and>
             mail_server w (t @ [Resolve d MX, Connect h]) Helo = Return c1 \<and>
             mail_server w (t @ [Resolve d MX, Connect h, Helo]) (Mail ''test@example.com'') = Return c2 \<and>
             mail_server w (t @ [Resolve d MX, Connect h, Helo, Mail ''test@example.com''])
               (Rcpt email) = Return c3 \<and>
             mail_server w (t @ [Resolve d MX, Connect h, Helo, Mail ''test@example.com'',
               Rcpt email]) Quit = Blocks))
      \<longrightarrow> fst (smtp_session w email d t) = Blocks)
   \<and> (is_valid_email email \<and>
      fst (domain_exists w (domain_part email) t) = Return True \<and>
      fst (has_mx_records w (domain_part email) (t @ [Resolve (domain_part email) A])) = Return True \<and>
      fst (smtp_session w email (domain_part email)
            (t @ [Resolve (domain_part email) A, Resolve (domain_part email) MX])) = Blocks
      \<longrightarrow> fst (verify_email lib w email t) = Blocks)"
proof (intro conjI impI)
  assume "responsive w"
  then have "completes (verify_email lib w email)"
    by (rule completes_verify_email)
  then show "fst (verify_email lib w email t) \<noteq> Blocks"
    by (simp add: completes_def)
next
  assume a: "resolver w t d MX = Return (h # hs) \<and>
       (mail_connect w (t @ [Resolve d MX]) h = Blocks
         \<or> (mail_connect w (t @ [Resolve d MX]) h = Return () \<and>
             mail_server w (t @ [Resolve d MX, Connect h]) Helo = Blocks)
         \<or> (mail_connect w (t @ [Resolve d MX]) h = Return () \<and>
             mail_server w (t @ [Resolve d MX, Connect h]) Helo = Return c1 \<and>
             mail_server w (t @ [Resolve d MX, Connect h, Helo]) (Mail ''test@example.com'') = Blocks)
         \<or> (mail_connect w (t @ [Resolve d MX]) h = Return () \<and>
             mail_server w (t @ [Resolve d MX, Connect h]) Helo = Return c1 \<and>
             mail_server w (t @ [Resolve d MX, Connect h, Helo]) (Mail ''test@example.com'') = Return c2 \<and>
             mail_server w (t @ [Resolve d MX, Connect h, Helo, Mail ''test@example.com''])
               (Rcpt email) = Blocks)
         \<or> (mail_connect w (t @ [Resolve d MX]) h = Return () \<and>
             mail_server w (t @ [Resolve d MX, Connect h]) Helo = Return c1 \<and>
             mail_server w (t @ [Resolve d MX, Connect h, Helo]) (Mail ''test@example.com'') = Return c2 \<and>
             mail_server w (t @ [Resolve d MX, Connect h, Helo, Mail ''test@example.com''])
               (Rcpt email) = Return c3 \<and>
             mail_server w (t @ [Resolve d MX, Connect h, Helo, Mail ''test@example.com'',
               Rcpt email]) Quit = Blocks))"
  show "fst (smtp_session w email d t) = Blocks"
    by (rule session_blocks_at_step [of w t d h hs c1 c2 email c3]) (use a in blast)+
next
  assume "is_valid_email email \<and>
      fst (domain_exists w (domain_part email) t) = Return True \<and>
      fst (has_mx_records w (domain_part email) (t @ [Resolve (domain_part email) A])) = Return True \<and>
      fst (smtp_session w email (domain_part email)
            (t @ [Resolve (domain_part email) A, Resolve (domain_part email) MX])) = Blocks"
  then show "fst (verify_email lib w email t) = Blocks"
    by (simp add: verify_email_blocks)
qed

lemma responsive_healthy_accepting: "responsive (healthy_world accepting)"
  by (simp add: responsive_def healthy_world_def fixed_world_def accepting_def
      split: rdtype.splits request.splits)

text \<open>
  C8 at a responsive network, and at a mail exchanger that does not answer.
\<close>

theorem C8_witness:
  "responsive (healthy_world accepting)
   \<and> fst (verify_email sample_library (healthy_world accepting) ''user@example.de'' []) \<noteq> Blocks
   \<and> fst (smtp_session silent_mx_world ''user@example.de'' ''example.de'' []) = Blocks"
proof -
  have a: "fst (verify_email sample_library (healthy_world accepting) ''user@example.de'' [])
      \<noteq> Blocks"
    using C8_no_timeout_on_the_probe [of "healthy_world accepting" sample_library
        "''user@example.de''" "[]"] responsive_healthy_accepting
    by simp
  have b: "fst (smtp_session silent_mx_world ''user@example.de'' ''example.de'' []) = Blocks"
    using C8_no_timeout_on_the_probe [where w = silent_mx_world and t = "[]"
        and d = "''example.de''" and h = "''mx.example.de.''" and hs = "[]"
        and email = "''user@example.de''"]
    by (simp add: silent_mx_world_def fixed_world_def)
  from a b responsive_healthy_accepting show ?thesis by simp
qed

text \<open>
  Claim C8 as written has the pipeline end with a result when the mail exchanger
  never responds. It does not end.
\<close>

theorem C8_silent_exchanger_counterexample:
  "fst (verify_email sample_library silent_mx_world ''user@example.de'' []) = Blocks"
  by (rule verify_silent)


subsection \<open>The bulk runner\<close>

lemma gather_all_return:
  assumes "\<forall>i<length rs. \<exists>x. rs ! i = Return x"
  shows "\<exists>xs. gather started k rs = Return xs \<and> length xs = length rs \<and>
           (\<forall>i<length rs. rs ! i = Return (xs ! i))"
  using assms
proof (induction rs arbitrary: k)
  case Nil
  show ?case by simp
next
  case (Cons r rs)
  from Cons.prems have "\<exists>x. (r # rs) ! 0 = Return x" by blast
  then obtain x where r: "r = Return x" by auto
  have "\<forall>i<length rs. \<exists>y. rs ! i = Return y"
  proof (intro allI impI)
    fix i
    assume "i < length rs"
    then have "Suc i < length (r # rs)" by simp
    with Cons.prems have "\<exists>y. (r # rs) ! Suc i = Return y" by blast
    then show "\<exists>y. rs ! i = Return y" by simp
  qed
  from Cons.IH [OF this, of "Suc k"] obtain xs where
    g: "gather started (Suc k) rs = Return xs" and l: "length xs = length rs"
    and nth: "\<forall>i<length rs. rs ! i = Return (xs ! i)"
    by blast
  have "gather started k (r # rs) = Return (x # xs)"
    by (simp add: r g)
  moreover have "length (x # xs) = length (r # rs)"
    by (simp add: l)
  moreover have "\<forall>i<length (r # rs). (r # rs) ! i = Return ((x # xs) ! i)"
  proof (intro allI impI)
    fix i
    assume "i < length (r # rs)"
    then show "(r # rs) ! i = Return ((x # xs) ! i)"
      using r nth by (cases i) simp_all
  qed
  ultimately show ?case by blast
qed

lemma verify_bulk_emails_returns:
  assumes "\<forall>i<length emails. \<exists>r. pipeline_outcome lib worlds emails i = Return r"
  shows "\<exists>rs. verify_bulk_emails started lib worlds emails = Return rs \<and>
           length rs = length emails \<and>
           (\<forall>i<length emails. pipeline_outcome lib worlds emails i = Return (rs ! i))"
proof -
  let ?os = "map (pipeline_outcome lib worlds emails) [0 ..< length emails]"
  from assms have "\<forall>i<length ?os. \<exists>x. ?os ! i = Return x" by simp
  from gather_all_return [OF this, of started 0] obtain rs where
    "gather started 0 ?os = Return rs" "length rs = length ?os"
    "\<forall>i<length ?os. ?os ! i = Return (rs ! i)"
    by blast
  then show ?thesis
    by (auto simp: verify_bulk_emails_def)
qed

text \<open>
  When the pipelines of a batch all return, \<open>verify_bulk_emails\<close> returns a list as long
  as the input whose \<open>i\<close>-th element is the result of the pipeline for the \<open>i\<close>-th address,
  whatever the scheduler did; the empty input gives the empty list.
\<close>

lemma bulk_results_in_input_order:
  "((\<forall>i<length emails. \<exists>r. pipeline_outcome lib worlds emails i = Return r) \<longrightarrow>
      (\<exists>rs. verify_bulk_emails started lib worlds emails = Return rs \<and>
         length rs = length emails \<and>
         (\<forall>i<length emails. pipeline_outcome lib worlds emails i = Return (rs ! i))))
   \<and> verify_bulk_emails started lib worlds [] = Return []"
  using verify_bulk_emails_returns [of emails lib worlds started]
  by (simp add: verify_bulk_emails_def)

lemma verify_mail_only:
  "verify_email sample_library mail_only_world ''user@example.com'' [] =
     (Raise NoAnswer, [Resolve ''example.com'' A])"
proof -
  have "domain_exists mail_only_world ''example.com'' [] = (Raise NoAnswer, [Resolve ''example.com'' A])"
    by (simp add: domain_exists_eq mail_only_world_def fixed_world_def)
  then show ?thesis
    unfolding verify_email_valid [OF valid_user_example_com] domain_user_example_com
    by (simp add: bind_def)
qed

lemma verify_not_an_email:
  "fst (verify_email lib w ''not-an-email'' []) =
     Return (''not-an-email'', False, ''Invalid Email Syntax'', ''Unknown'')"
  by (simp add: verify_email_def invalid_not_an_email ret_def)

lemma bulk_results_example:
  "verify_bulk_emails (\<lambda>j. True) sample_library (\<lambda>i. healthy_world accepting)
     [''user@example.de'', ''not-an-email''] =
   Return [(''user@example.de'', True, ''Verified'', ''Germany''),
           (''not-an-email'', False, ''Invalid Email Syntax'', ''Unknown'')]"
proof -
  let ?emails = "[''user@example.de'', ''not-an-email'']"
  let ?out = "pipeline_outcome sample_library (\<lambda>i. healthy_world accepting) ?emails"
  have o0: "?out 0 = Return (''user@example.de'', True, ''Verified'', ''Germany'')"
    by (simp add: pipeline_outcome_def verify_accepting)
  have o1: "?out 1 = Return (''not-an-email'', False, ''Invalid Email Syntax'', ''Unknown'')"
    by (simp add: pipeline_outcome_def verify_not_an_email)
  have all: "\<forall>i<length ?emails. \<exists>r. ?out i = Return r"
  proof (intro allI impI)
    fix i
    assume "i < length ?emails"
    then have "i = 0 \<or> i = 1" by auto
    with o0 o1 show "\<exists>r. ?out i = Return r" by auto
  qed
  with bulk_results_in_input_order [of ?emails sample_library "\<lambda>i. healthy_world accepting" "\<lambda>j. True"]
  obtain rs where rs: "verify_bulk_emails (\<lambda>j. True) sample_library (\<lambda>i. healthy_world accepting)
      ?emails = Return rs"
    and len: "length rs = 2" and nth: "\<forall>i<2. ?out i = Return (rs ! i)"
    by auto
  from nth o0 o1 have "rs ! 0 = (''user@example.de'', True, ''Verified'', ''Germany'')"
    and "rs ! 1 = (''not-an-email'', False, ''Invalid Email Syntax'', ''Unknown'')"
    by auto
  with len have "rs = [(''user@example.de'', True, ''Verified'', ''Germany''),
      (''not-an-email'', False, ''Invalid Email Syntax'', ''Unknown'')]"
    by (cases rs; cases "tl rs") auto
  with rs show ?thesis by simp
qed

text \<open>
  Claim C2 fails on the program. In a batch of two addresses the first has a domain
  with MX records and no A record, so its pipeline raises \<open>NoAnswer\<close>; the second would be
  verified. \<open>verify_bulk_emails\<close> raises and returns no list, whatever the scheduler did.
\<close>

theorem C2_raising_address_ends_the_batch:
  "pipeline_outcome sample_library (\<lambda>i. if i = 0 then mail_only_world else healthy_world accepting)
     [''user@example.com'', ''user@example.de''] 1 =
       Return (''user@example.de'', True, ''Verified'', ''Germany'')
   \<and> verify_bulk_emails started sample_library
       (\<lambda>i. if i = 0 then mail_only_world else healthy_world accepting)
       [''user@example.com'', ''user@example.de''] = Raise NoAnswer"
  by (simp add: verify_bulk_emails_def pipeline_outcome_def verify_mail_only verify_accepting
      is_blocks_def upt_rec)

end
